theory Spec2Isabelle
  imports Complex_Main "HOL-Library.Char_ord" "HOL-Library.List_Lexorder" "HOL-Library.Log_Nat"
begin

section \<open>Argus bot minions: rate limiter, minion engine, alert service, storage\<close>

text \<open>
  The development follows the TypeScript sources under \<open>plugins/bot-minions\<close>.
  JavaScript numbers are modelled as \<open>int\<close> where the code only counts and as
  \<open>real\<close> where it computes with times, delays and the backoff. The rate limiter is
  modelled in exact arithmetic. The scheduler's sums, whose exact value matters, are
  rounded to binary64 as the code's additions are (\<open>to_double\<close> below).
  \<open>Date.now()\<close> and \<open>Math.random()\<close> are inputs of the operation that calls them
  (\<open>now\<close>, and \<open>rnd\<close> with \<open>0 \<le> rnd < 1\<close>).
\<close>

subsection \<open>helpers/rateLimiter.ts\<close>

record RateLimiterConfig =
  minDelayMs :: real
  maxDelayMs :: real
  maxConcurrent :: int
  backoffMultiplier :: real
  maxBackoffMs :: real

definition DEFAULT_CONFIG :: RateLimiterConfig where
  "DEFAULT_CONFIG =
     \<lparr>minDelayMs = 2000, maxDelayMs = 5000, maxConcurrent = 1,
      backoffMultiplier = 2, maxBackoffMs = 300000\<rparr>"

text \<open>
  The fields of the class. The entries of \<open>queue\<close> are the resolvers pushed by suspended
  \<open>acquire()\<close> calls; a call is named by a number, so the queue holds the numbers of the
  calls that wait for a release.
\<close>

record RateLimiter =
  config :: RateLimiterConfig
  lastCallTime :: real
  currentBackoff :: real
  activeCount :: int
  queue :: "nat list"
  floodWaitUntil :: real

definition newRateLimiter :: "RateLimiterConfig \<Rightarrow> RateLimiter" where
  "newRateLimiter cfg =
     \<lparr>config = cfg, lastCallTime = 0, currentBackoff = 0, activeCount = 0,
      queue = [], floodWaitUntil = 0\<rparr>"

definition getJitteredDelay :: "real \<Rightarrow> RateLimiter \<Rightarrow> real" where
  "getJitteredDelay rnd l =
     (let base = minDelayMs (config l) + currentBackoff l;
          jitter = rnd * (maxDelayMs (config l) - minDelayMs (config l))
      in min (base + jitter) (maxBackoffMs (config l)))"

text \<open>
  \<open>acquire()\<close> is an async function with three places where it may suspend. A call is
  at one of these stages: asleep until the flood wait is over, in the queue, taken from
  the queue by \<open>release()\<close> with its continuation not yet run, asleep for the spacing
  delay, returned, or rejected by \<open>reset()\<close>. A sleep carries the time at which its
  timer is due: \<open>sleep(ms)\<close> started at \<open>now\<close> does not resume before \<open>now + ms\<close>.
\<close>

datatype stage =
  FloodSleep real | Queued | Resolved | SpacingSleep real | Acquired | Rejected

text \<open>The code of \<open>acquire()\<close> from its last statement back to its first.\<close>

definition acquire_enter :: "real \<Rightarrow> RateLimiter \<Rightarrow> stage \<times> RateLimiter" where
  "acquire_enter now l =
     (Acquired, l\<lparr>activeCount := activeCount l + 1, lastCallTime := now\<rparr>)"

definition acquire_spacing :: "real \<Rightarrow> real \<Rightarrow> RateLimiter \<Rightarrow> stage \<times> RateLimiter" where
  "acquire_spacing now rnd l =
     (let elapsed = now - lastCallTime l;
          requiredDelay = getJitteredDelay rnd l
      in if elapsed < requiredDelay
         then (SpacingSleep (now + (requiredDelay - elapsed)), l)
         else acquire_enter now l)"

definition acquire_concurrency ::
  "nat \<Rightarrow> real \<Rightarrow> real \<Rightarrow> RateLimiter \<Rightarrow> stage \<times> RateLimiter" where
  "acquire_concurrency c now rnd l =
     (if activeCount l \<ge> maxConcurrent (config l)
      then (Queued, l\<lparr>queue := queue l @ [c]\<rparr>)
      else acquire_spacing now rnd l)"

definition acquire :: "nat \<Rightarrow> real \<Rightarrow> real \<Rightarrow> RateLimiter \<Rightarrow> stage \<times> RateLimiter" where
  "acquire c now rnd l =
     (if floodWaitUntil l > now
      then (let waitTime = floodWaitUntil l - now in (FloodSleep (now + waitTime), l))
      else acquire_concurrency c now rnd l)"

text \<open>\<open>release()\<close> returns the call whose resolver it has run, if the queue had one.\<close>

definition release :: "RateLimiter \<Rightarrow> nat option \<times> RateLimiter" where
  "release l =
     (let l1 = l\<lparr>activeCount := max 0 (activeCount l - 1)\<rparr>
      in case queue l1 of
           [] \<Rightarrow> (None, l1)
         | next # rest \<Rightarrow> (Some next, l1\<lparr>queue := rest\<rparr>))"

definition reportSuccess :: "RateLimiter \<Rightarrow> RateLimiter" where
  "reportSuccess l = l\<lparr>currentBackoff := max 0 (currentBackoff l - 500)\<rparr>"

definition reportFloodWait :: "real \<Rightarrow> real \<Rightarrow> RateLimiter \<Rightarrow> RateLimiter" where
  "reportFloodWait waitSeconds now l =
     (let waitMs = (waitSeconds + 5) * 1000
      in l\<lparr>floodWaitUntil := now + waitMs,
           currentBackoff :=
             min (currentBackoff l * backoffMultiplier (config l) + waitMs)
                 (maxBackoffMs (config l))\<rparr>)"

definition reportError :: "RateLimiter \<Rightarrow> RateLimiter" where
  "reportError l =
     l\<lparr>currentBackoff :=
         min (max (currentBackoff l) (minDelayMs (config l)) * backoffMultiplier (config l))
             (maxBackoffMs (config l))\<rparr>"

text \<open>\<open>reset()\<close> returns the calls whose promises it rejects.\<close>

definition reset :: "RateLimiter \<Rightarrow> nat list \<times> RateLimiter" where
  "reset l =
     (queue l, l\<lparr>currentBackoff := 0, floodWaitUntil := 0, activeCount := 0, queue := []\<rparr>)"

record LimiterStatus =
  status_activeCount :: int
  status_queueLength :: nat
  status_currentBackoff :: real
  status_isFloodWaiting :: bool
  status_floodWaitRemaining :: real

definition getStatus :: "real \<Rightarrow> RateLimiter \<Rightarrow> LimiterStatus" where
  "getStatus now l =
     \<lparr>status_activeCount = activeCount l,
      status_queueLength = length (queue l),
      status_currentBackoff = currentBackoff l,
      status_isFloodWaiting = (floodWaitUntil l > now),
      status_floodWaitRemaining = max 0 (floodWaitUntil l - now)\<rparr>"

text \<open>
  What a wrapped call or a poll function does: it returns a value or throws. A thrown
  object either carries a \<open>seconds\<close> property (the provider's rate-limit signal) or
  does not; \<open>err_message\<close> is what \<open>error.message\<close> or \<open>String(error)\<close> gives.
\<close>

datatype js_error = FloodWaitError real string | OtherError string

fun err_message :: "js_error \<Rightarrow> string" where
  "err_message (FloodWaitError secs m) = m"
| "err_message (OtherError m) = m"

datatype 'a outcome = Returned 'a | Threw js_error

text \<open>
  \<open>execute(fn)\<close> after \<open>acquire()\<close> has returned and \<open>fn()\<close> has settled at time
  \<open>now\<close>: the report, then \<open>release()\<close> in the \<open>finally\<close> block. The outcome of
  \<open>fn\<close> is passed on unchanged: the result is returned, the error thrown again.
\<close>

definition execute_settle ::
  "real \<Rightarrow> 'a outcome \<Rightarrow> RateLimiter \<Rightarrow> 'a outcome \<times> nat option \<times> RateLimiter" where
  "execute_settle now out l =
     (let l1 = (case out of
                  Returned r \<Rightarrow> reportSuccess l
                | Threw (FloodWaitError secs m) \<Rightarrow> reportFloodWait secs now l
                | Threw (OtherError m) \<Rightarrow> reportError l)
      in (out, release l1))"

subsection \<open>Interleavings of calls on one rate limiter\<close>

text \<open>
  The host runs one callback at a time. A run of the limiter is a list of timed events;
  each event is one uninterrupted piece of code: a call of a method, or the continuation
  of a suspended \<open>acquire()\<close> up to its next suspension. \<open>callers\<close> records the stage of
  every \<open>acquire()\<close> call made so far, \<open>clock\<close> the time of the last event. An event that
  cannot happen (an earlier time than the clock, a timer that is not due, a call number
  used twice, a continuation of a call that is not suspended there) changes nothing.
\<close>

record system =
  limiter :: RateLimiter
  callers :: "nat \<Rightarrow> stage option"
  clock :: real

datatype action =
  Acquire nat real
| TimerFires nat real
| Continue nat real
| Release
| ReportSuccess
| ReportFloodWait real
| ReportError
| Reset

type_synonym event = "real \<times> action"

definition newSystem :: "RateLimiterConfig \<Rightarrow> system" where
  "newSystem cfg = \<lparr>limiter = newRateLimiter cfg, callers = (\<lambda>c. None), clock = 0\<rparr>"

definition put_stage :: "nat \<Rightarrow> stage \<times> RateLimiter \<Rightarrow> system \<Rightarrow> system" where
  "put_stage c r s = s\<lparr>limiter := snd r, callers := (callers s)(c := Some (fst r))\<rparr>"

fun perform :: "real \<Rightarrow> action \<Rightarrow> system \<Rightarrow> system" where
  "perform now (Acquire c rnd) s =
     (case callers s c of
        None \<Rightarrow> put_stage c (acquire c now rnd (limiter s)) s
      | Some st \<Rightarrow> s)"
| "perform now (TimerFires c rnd) s =
     (case callers s c of
        Some (FloodSleep due) \<Rightarrow>
          if due \<le> now then put_stage c (acquire_concurrency c now rnd (limiter s)) s else s
      | Some (SpacingSleep due) \<Rightarrow>
          if due \<le> now then put_stage c (acquire_enter now (limiter s)) s else s
      | _ \<Rightarrow> s)"
| "perform now (Continue c rnd) s =
     (case callers s c of
        Some Resolved \<Rightarrow> put_stage c (acquire_spacing now rnd (limiter s)) s
      | _ \<Rightarrow> s)"
| "perform now Release s =
     (case release (limiter s) of
        (None, l) \<Rightarrow> s\<lparr>limiter := l\<rparr>
      | (Some c, l) \<Rightarrow> s\<lparr>limiter := l, callers := (callers s)(c := Some Resolved)\<rparr>)"
| "perform now ReportSuccess s = s\<lparr>limiter := reportSuccess (limiter s)\<rparr>"
| "perform now (ReportFloodWait secs) s = s\<lparr>limiter := reportFloodWait secs now (limiter s)\<rparr>"
| "perform now ReportError s = s\<lparr>limiter := reportError (limiter s)\<rparr>"
| "perform now Reset s =
     (case reset (limiter s) of
        (rejected, l) \<Rightarrow>
          s\<lparr>limiter := l,
            callers := (\<lambda>c. if c \<in> set rejected then Some Rejected else callers s c)\<rparr>)"

definition step :: "event \<Rightarrow> system \<Rightarrow> system" where
  "step e s = (if fst e < clock s then s else perform (fst e) (snd e) (s\<lparr>clock := fst e\<rparr>))"

fun run :: "event list \<Rightarrow> system \<Rightarrow> system" where
  "run [] s = s"
| "run (e # es) s = run es (step e s)"

definition GLOBAL_CONFIG :: RateLimiterConfig where
  \<comment> \<open>the configuration of \<open>getGlobalRateLimiter()\<close>\<close>
  "GLOBAL_CONFIG =
     \<lparr>minDelayMs = 3000, maxDelayMs = 7000, maxConcurrent = 1,
      backoffMultiplier = 5 / 2, maxBackoffMs = 600000\<rparr>"

text \<open>
  Two facts about runs, used for the flood wait: the queue holds each waiting call once,
  and only calls at stage \<open>Queued\<close>; a call asleep until \<open>due\<close> stays so while the
  clock is before \<open>due\<close>.
\<close>

definition queue_ok :: "system \<Rightarrow> bool" where
  "queue_ok s =
     (distinct (queue (limiter s)) \<and>
      (\<forall>c \<in> set (queue (limiter s)). callers s c = Some Queued))"

definition enqueues :: "nat \<Rightarrow> RateLimiter \<Rightarrow> stage \<times> RateLimiter \<Rightarrow> bool" where
  "enqueues c l r =
     (if fst r = Queued then queue (snd r) = queue l @ [c] else queue (snd r) = queue l)"

definition held_back :: "real \<Rightarrow> nat \<Rightarrow> system \<Rightarrow> bool" where
  "held_back due c s = (callers s c = Some (FloodSleep due) \<or> due \<le> clock s)"

text \<open>
  Only \<open>reset()\<close> and \<open>reportFloodWait()\<close> write \<open>floodWaitUntil\<close>. A list of events
  is undisturbed when it has neither: the deadline of an earlier report still stands
  after it.
\<close>

fun keeps_deadline :: "action \<Rightarrow> bool" where
  "keeps_deadline Reset = False"
| "keeps_deadline (ReportFloodWait secs) = False"
| "keeps_deadline a = True"

definition undisturbed :: "event list \<Rightarrow> bool" where
  "undisturbed es = list_all (\<lambda>e. keeps_deadline (snd e)) es"

subsection \<open>types/index.ts\<close>

datatype MinionType = KeywordMonitor | NewMemberAlert | ChannelCloneDetector | MediaMonitor

datatype MinionStatus = Running | Paused | Stopped | Error | Starting

datatype AlertPriority = Info | Warning | Critical

datatype AlertType =
  KeywordMatch | NewMember | WatchlistHit | RiskAccount | ChannelClone
| MediaCaptured | MediaAnalysisHook | MinionError

datatype MinionLogLevel = LevelDebug | LevelInfo | LevelWarn | LevelError

datatype MediaKind = Photo | Video | Document | Audio

record KeywordMonitorConfig =
  cfg_keywords :: "string list"  \<comment> \<open>the field \<open>keywords\<close>\<close>
  regexPatterns :: "string list"
  autoArchive :: bool
  alertPriority :: AlertPriority
  contextMessages :: int

record NewMemberAlertConfig =
  watchlistUserIds :: "string list"
  newAccountThresholdDays :: real
  suspiciousUsernamePatterns :: "string list"
  autoProfile :: bool
  watchlistAlertPriority :: AlertPriority
  riskAlertPriority :: AlertPriority

record ProtectedChannel =
  protected_chatId :: string
  protected_title :: string
  protected_description :: "string option"
  protected_username :: "string option"
  protected_photoHash :: "string option"

record ChannelCloneDetectorConfig =
  protectedChannels :: "ProtectedChannel list"
  nameThreshold :: real
  descriptionThreshold :: real
  clone_alertPriority :: AlertPriority

record MediaMonitorConfig =
  mediaTypes :: "MediaKind list"
  media_autoArchive :: bool
  extractMetadata :: bool
  imageAnalysisEnabled :: bool
  media_alertPriority :: AlertPriority

datatype TypeConfig =
  KeywordMonitorCfg KeywordMonitorConfig
| NewMemberAlertCfg NewMemberAlertConfig
| ChannelCloneDetectorCfg ChannelCloneDetectorConfig
| MediaMonitorCfg MediaMonitorConfig

text \<open>
  Field names that several interfaces share (\<open>id\<close>, \<open>minionId\<close>, \<open>timestamp\<close>, ...)
  carry the interface as a prefix.
\<close>

record MinionConfig =
  config_id :: string
  config_name :: string
  config_type :: MinionType
  enabled :: bool
  createdAt :: real
  updatedAt :: real
  targetChatIds :: "string list"
  pollIntervalMs :: real
  typeConfig :: TypeConfig

record MinionState =
  state_id :: string
  status :: MinionStatus
  lastPollAt :: real
  nextPollAt :: real
  messagesScanned :: int
  alertsTriggered :: int
  errorsCount :: int
  lastError :: "string option"
  startedAt :: "real option"
  uptimeMs :: real
  lastMessageIds :: "string \<Rightarrow> int option"
  lastKnownMembers :: "string \<Rightarrow> string list option"

text \<open>
  \<open>Partial<MinionState>\<close>: every key may be absent (\<open>None\<close>). For the two optional
  fields a key can be present with the value \<open>undefined\<close> (\<open>Some None\<close>), as in
  \<open>startMinion\<close>.
\<close>

record StateUpdates =
  upd_id :: "string option"
  upd_status :: "MinionStatus option"
  upd_lastPollAt :: "real option"
  upd_nextPollAt :: "real option"
  upd_messagesScanned :: "int option"
  upd_alertsTriggered :: "int option"
  upd_errorsCount :: "int option"
  upd_lastError :: "string option option"
  upd_startedAt :: "real option option"
  upd_uptimeMs :: "real option"
  upd_lastMessageIds :: "(string \<Rightarrow> int option) option"
  upd_lastKnownMembers :: "(string \<Rightarrow> string list option) option"

definition no_updates :: StateUpdates where
  \<comment> \<open>the object literal \<open>{}\<close>\<close>
  "no_updates =
     \<lparr>upd_id = None, upd_status = None, upd_lastPollAt = None, upd_nextPollAt = None,
      upd_messagesScanned = None, upd_alertsTriggered = None, upd_errorsCount = None,
      upd_lastError = None, upd_startedAt = None, upd_uptimeMs = None,
      upd_lastMessageIds = None, upd_lastKnownMembers = None\<rparr>"

record MinionAlert =
  alert_id :: string
  alert_minionId :: string
  alert_minionName :: string
  alert_minionType :: MinionType
  alert_alertType :: AlertType
  alert_priority :: AlertPriority
  alert_title :: string
  alert_description :: string
  alert_chatId :: string
  alert_chatTitle :: string
  alert_messageId :: "int option"
  alert_userId :: "string option"
  alert_userName :: "string option"
  alert_timestamp :: real
  alert_read :: bool
  alert_dismissed :: bool
  alert_matchData :: "string option"
  alert_evidenceId :: "string option"

record MinionLogEntry =
  log_id :: string
  log_minionId :: string
  log_level :: MinionLogLevel
  log_message :: string
  log_timestamp :: real
  log_data :: "string option"

subsection \<open>helpers/minionStorage.ts\<close>

text \<open>
  An IndexedDB object store with key path \<open>id\<close> holds at most one record per key and
  lists its records in key order. \<open>store.put\<close> replaces the record of the same key. An
  index query returns the records whose indexed field has the value asked for, in key
  order. The requests are taken to succeed.
\<close>

definition store_put :: "('a \<Rightarrow> string) \<Rightarrow> 'a \<Rightarrow> 'a list \<Rightarrow> 'a list" where
  "store_put key x xs = insort_key key x (filter (\<lambda>y. key y \<noteq> key x) xs)"

definition store_get :: "('a \<Rightarrow> string) \<Rightarrow> string \<Rightarrow> 'a list \<Rightarrow> 'a option" where
  "store_get key k xs = find (\<lambda>y. key y = k) xs"

definition store_delete :: "('a \<Rightarrow> string) \<Rightarrow> string \<Rightarrow> 'a list \<Rightarrow> 'a list" where
  "store_delete key k xs = filter (\<lambda>y. key y \<noteq> k) xs"

definition doIndexQuery :: "('a \<Rightarrow> 'b) \<Rightarrow> 'b \<Rightarrow> 'a list \<Rightarrow> 'a list" where
  "doIndexQuery field v xs = filter (\<lambda>y. field y = v) xs"

record Storage =
  CONFIGS :: "MinionConfig list"
  STATES :: "MinionState list"
  ALERTS :: "MinionAlert list"
  LOGS :: "MinionLogEntry list"

definition emptyStorage :: Storage where
  "emptyStorage = \<lparr>CONFIGS = [], STATES = [], ALERTS = [], LOGS = []\<rparr>"

definition saveConfig :: "MinionConfig \<Rightarrow> Storage \<Rightarrow> Storage" where
  "saveConfig c db = db\<lparr>CONFIGS := store_put config_id c (CONFIGS db)\<rparr>"

definition getConfig :: "string \<Rightarrow> Storage \<Rightarrow> MinionConfig option" where
  "getConfig i db = store_get config_id i (CONFIGS db)"

definition deleteConfig :: "string \<Rightarrow> Storage \<Rightarrow> Storage" where
  "deleteConfig i db = db\<lparr>CONFIGS := store_delete config_id i (CONFIGS db)\<rparr>"

definition saveState :: "MinionState \<Rightarrow> Storage \<Rightarrow> Storage" where
  "saveState st db = db\<lparr>STATES := store_put state_id st (STATES db)\<rparr>"

definition getState :: "string \<Rightarrow> Storage \<Rightarrow> MinionState option" where
  "getState i db = store_get state_id i (STATES db)"

definition deleteState :: "string \<Rightarrow> Storage \<Rightarrow> Storage" where
  "deleteState i db = db\<lparr>STATES := store_delete state_id i (STATES db)\<rparr>"

definition saveAlert :: "MinionAlert \<Rightarrow> Storage \<Rightarrow> Storage" where
  "saveAlert a db = db\<lparr>ALERTS := store_put alert_id a (ALERTS db)\<rparr>"

definition getAlert :: "string \<Rightarrow> Storage \<Rightarrow> MinionAlert option" where
  "getAlert i db = store_get alert_id i (ALERTS db)"

definition getAllAlerts :: "Storage \<Rightarrow> MinionAlert list" where
  "getAllAlerts db = ALERTS db"

definition getAlertsByMinion :: "string \<Rightarrow> Storage \<Rightarrow> MinionAlert list" where
  "getAlertsByMinion minionId db = doIndexQuery alert_minionId minionId (ALERTS db)"

definition markAlertRead :: "string \<Rightarrow> Storage \<Rightarrow> Storage" where
  "markAlertRead i db =
     (case getAlert i db of
        None \<Rightarrow> db
      | Some alert \<Rightarrow> saveAlert (alert\<lparr>alert_read := True\<rparr>) db)"

definition markAlertDismissed :: "string \<Rightarrow> Storage \<Rightarrow> Storage" where
  "markAlertDismissed i db =
     (case getAlert i db of
        None \<Rightarrow> db
      | Some alert \<Rightarrow> saveAlert (alert\<lparr>alert_dismissed := True\<rparr>) db)"

definition markAllAlertsRead :: "Storage \<Rightarrow> Storage" where
  "markAllAlertsRead db =
     (let alerts = getAllAlerts db
      in db\<lparr>ALERTS :=
             foldl (\<lambda>store alert.
                      if \<not> alert_read alert
                      then store_put alert_id (alert\<lparr>alert_read := True\<rparr>) store
                      else store)
                   (ALERTS db) alerts\<rparr>)"

definition clearAlertsByMinion :: "string \<Rightarrow> Storage \<Rightarrow> Storage" where
  "clearAlertsByMinion minionId db =
     (let alerts = getAlertsByMinion minionId db
      in db\<lparr>ALERTS :=
             foldl (\<lambda>store alert. store_delete alert_id (alert_id alert) store)
                   (ALERTS db) alerts\<rparr>)"

definition saveLog :: "MinionLogEntry \<Rightarrow> Storage \<Rightarrow> Storage" where
  "saveLog entry db = db\<lparr>LOGS := store_put log_id entry (LOGS db)\<rparr>"

text \<open>
  \<open>logs.sort((a, b) => b.timestamp - a.timestamp).slice(0, limit)\<close>: a stable sort,
  latest first, and the first \<open>limit\<close> entries of it.
\<close>

definition getLogsByMinion :: "string \<Rightarrow> nat \<Rightarrow> Storage \<Rightarrow> MinionLogEntry list" where
  "getLogsByMinion minionId limit db =
     (let logs = doIndexQuery log_minionId minionId (LOGS db)
      in take limit (sort_key (\<lambda>e. - log_timestamp e) logs))"

definition clearLogsByMinion :: "string \<Rightarrow> Storage \<Rightarrow> Storage" where
  "clearLogsByMinion minionId db =
     (let logs = getLogsByMinion minionId 10000 db
      in db\<lparr>LOGS :=
             foldl (\<lambda>store entry. store_delete log_id (log_id entry) store)
                   (LOGS db) logs\<rparr>)"

definition deleteAllMinionData :: "string \<Rightarrow> Storage \<Rightarrow> Storage" where
  "deleteAllMinionData minionId db =
     clearLogsByMinion minionId
       (clearAlertsByMinion minionId
         (deleteState minionId
           (deleteConfig minionId db)))"

subsection \<open>JavaScript numbers: rounding to binary64\<close>

text \<open>
  A JavaScript number is an IEEE 754 binary64 value, and the result of \<open>a + b\<close> or
  \<open>a * b\<close> is the exact result rounded to the nearest such value, ties going to the
  even significand. \<open>to_double\<close> is that rounding on the reals: a number of
  magnitude in \<open>[2^k, 2^(k+1))\<close> is rounded to a multiple of \<open>2^(k-52)\<close>, and a
  subnormal one to a multiple of \<open>2^-1074\<close>. Overflow to \<open>Infinity\<close> (magnitudes from
  \<open>2^1024\<close> on) is not modelled.
\<close>

definition round_half_even :: "real \<Rightarrow> int" where
  "round_half_even y =
     (let f = \<lfloor>y\<rfloor>; d = y - of_int f
      in if d < 1 / 2 then f else if 1 / 2 < d then f + 1 else if even f then f else f + 1)"

definition floor_log2 :: "real \<Rightarrow> int" where
  \<comment> \<open>for \<open>x > 0\<close>, the \<open>k\<close> with \<open>2^k \<le> x < 2^(k+1)\<close>\<close>
  "floor_log2 x = (if 1 \<le> x then bitlen \<lfloor>x\<rfloor> - 1 else - bitlen (\<lceil>1 / x\<rceil> - 1))"

definition ulp_exponent :: "real \<Rightarrow> int" where
  "ulp_exponent x = max (floor_log2 \<bar>x\<bar> - 52) (- 1074)"

definition to_double :: "real \<Rightarrow> real" where
  "to_double x =
     (if x = 0 then 0
      else let s = 2 powi ulp_exponent x
           in sgn x * of_int (round_half_even (\<bar>x\<bar> / s)) * s)"

subsection \<open>services/minionEngine.ts\<close>

text \<open>
  The engine's maps, the table of registered poll functions (only whether a type has
  one matters here) and the database it writes to. A timer is recorded by the delay it
  was armed with. \<open>console\<close> output and \<open>notifyListeners()\<close> change none of these and
  are left out. Every log entry needs an id from \<open>generateLogId()\<close>, which draws on
  the time and \<open>Math.random()\<close>: an operation takes the ids of its log entries as an
  input, \<open>lid k\<close> for its \<open>k\<close>-th call of \<open>log\<close>.
\<close>

record MinionEngine =
  timers :: "string \<Rightarrow> real option"
  states :: "string \<Rightarrow> MinionState option"
  configs :: "string \<Rightarrow> MinionConfig option"
  minionPollFunctions :: "MinionType \<Rightarrow> bool"
  storage :: Storage

fun type_tag :: "MinionType \<Rightarrow> string" where
  "type_tag KeywordMonitor = ''keyword-monitor''"
| "type_tag NewMemberAlert = ''new-member-alert''"
| "type_tag ChannelCloneDetector = ''channel-clone-detector''"
| "type_tag MediaMonitor = ''media-monitor''"

fun decimal :: "nat \<Rightarrow> string" where
  "decimal n =
     (if n < 10 then [char_of (48 + n)]
      else decimal (n div 10) @ [char_of (48 + n mod 10)])"

definition quoted :: "string \<Rightarrow> string" where
  "quoted s = [CHR 0x22] @ s @ [CHR 0x22]"

definition engine_log ::
  "string \<Rightarrow> MinionLogLevel \<Rightarrow> string \<Rightarrow> real \<Rightarrow> string \<Rightarrow> MinionEngine \<Rightarrow> MinionEngine" where
  \<comment> \<open>the method \<open>log\<close>, called without \<open>data\<close>; \<open>logId\<close> is what \<open>generateLogId()\<close> gives\<close>
  "engine_log minionId level message now logId e =
     e\<lparr>storage :=
         saveLog \<lparr>log_id = logId, log_minionId = minionId, log_level = level,
                  log_message = message, log_timestamp = now, log_data = None\<rparr>
           (storage e)\<rparr>"

definition merge_state :: "MinionState \<Rightarrow> StateUpdates \<Rightarrow> MinionState" where
  \<comment> \<open>the object spread \<open>{ ...current, ...updates }\<close>\<close>
  "merge_state current u =
     \<lparr>state_id = (case upd_id u of None \<Rightarrow> state_id current | Some v \<Rightarrow> v),
      status = (case upd_status u of None \<Rightarrow> status current | Some v \<Rightarrow> v),
      lastPollAt = (case upd_lastPollAt u of None \<Rightarrow> lastPollAt current | Some v \<Rightarrow> v),
      nextPollAt = (case upd_nextPollAt u of None \<Rightarrow> nextPollAt current | Some v \<Rightarrow> v),
      messagesScanned =
        (case upd_messagesScanned u of None \<Rightarrow> messagesScanned current | Some v \<Rightarrow> v),
      alertsTriggered =
        (case upd_alertsTriggered u of None \<Rightarrow> alertsTriggered current | Some v \<Rightarrow> v),
      errorsCount = (case upd_errorsCount u of None \<Rightarrow> errorsCount current | Some v \<Rightarrow> v),
      lastError = (case upd_lastError u of None \<Rightarrow> lastError current | Some v \<Rightarrow> v),
      startedAt = (case upd_startedAt u of None \<Rightarrow> startedAt current | Some v \<Rightarrow> v),
      uptimeMs = (case upd_uptimeMs u of None \<Rightarrow> uptimeMs current | Some v \<Rightarrow> v),
      lastMessageIds =
        (case upd_lastMessageIds u of None \<Rightarrow> lastMessageIds current | Some v \<Rightarrow> v),
      lastKnownMembers =
        (case upd_lastKnownMembers u of None \<Rightarrow> lastKnownMembers current | Some v \<Rightarrow> v)\<rparr>"

definition updateState :: "string \<Rightarrow> StateUpdates \<Rightarrow> real \<Rightarrow> MinionEngine \<Rightarrow> MinionEngine" where
  "updateState i updates now e =
     (case states e i of
        None \<Rightarrow> e
      | Some current \<Rightarrow>
          let updated = merge_state current updates;
              updated' =
                (case startedAt updated of
                   Some t \<Rightarrow>
                     if t \<noteq> 0 \<and> status updated = Running
                     then updated\<lparr>uptimeMs := now - t\<rparr> else updated
                 | None \<Rightarrow> updated)
          in e\<lparr>states := (states e)(i := Some updated')\<rparr>)"

definition persistState :: "string \<Rightarrow> MinionEngine \<Rightarrow> MinionEngine" where
  "persistState i e =
     (case states e i of
        Some state \<Rightarrow> e\<lparr>storage := saveState state (storage e)\<rparr>
      | None \<Rightarrow> e)"

definition createDefaultState :: "string \<Rightarrow> MinionState" where
  "createDefaultState i =
     \<lparr>state_id = i, status = Stopped, lastPollAt = 0, nextPollAt = 0, messagesScanned = 0,
      alertsTriggered = 0, errorsCount = 0, lastError = None, startedAt = None, uptimeMs = 0,
      lastMessageIds = (\<lambda>chat. None), lastKnownMembers = (\<lambda>chat. None)\<rparr>"

definition clearTimer :: "string \<Rightarrow> MinionEngine \<Rightarrow> MinionEngine" where
  "clearTimer i e =
     (case timers e i of
        Some timer \<Rightarrow> e\<lparr>timers := (timers e)(i := None)\<rparr>
      | None \<Rightarrow> e)"

definition schedulePoll :: "string \<Rightarrow> real \<Rightarrow> real \<Rightarrow> MinionEngine \<Rightarrow> MinionEngine" where
  "schedulePoll i now rnd e =
     (case (configs e i, states e i) of
        (Some cfg, Some state) \<Rightarrow>
          if status state \<noteq> Running then e
          else
            let interval = max (pollIntervalMs cfg) 30000;
                jitter = to_double (rnd * 5000);
                e1 = e\<lparr>timers := (timers e)(i := Some (to_double (interval + jitter)))\<rparr>
            in updateState i
                 (no_updates\<lparr>upd_nextPollAt :=
                    Some (to_double (to_double (now + interval) + jitter))\<rparr>)
                 now e1
      | _ \<Rightarrow> e)"

definition startMinion ::
  "string \<Rightarrow> real \<Rightarrow> real \<Rightarrow> (nat \<Rightarrow> string) \<Rightarrow> MinionEngine \<Rightarrow> bool \<times> MinionEngine" where
  "startMinion i now rnd lid e =
     (case configs e i of
        None \<Rightarrow> (False, e)
      | Some cfg \<Rightarrow>
          if \<not> minionPollFunctions e (config_type cfg)
          then
            let e1 = engine_log i LevelError
                       (''No poll function registered for type: '' @ type_tag (config_type cfg))
                       now (lid 0) e
            in (False,
                updateState i
                  (no_updates\<lparr>upd_status := Some Error,
                     upd_lastError :=
                       Some (Some (''No handler for type: '' @ type_tag (config_type cfg)))\<rparr>)
                  now e1)
          else
            let e1 = clearTimer i e;
                e2 = updateState i
                       (no_updates\<lparr>upd_status := Some Running, upd_startedAt := Some (Some now),
                          upd_lastError := Some None\<rparr>)
                       now e1;
                e3 = engine_log i LevelInfo
                       (''Minion '' @ quoted (config_name cfg) @ '' started'') now (lid 0) e2
            in (True, schedulePoll i now rnd e3))"

definition stopMinion :: "string \<Rightarrow> real \<Rightarrow> (nat \<Rightarrow> string) \<Rightarrow> MinionEngine \<Rightarrow> MinionEngine" where
  "stopMinion i now lid e =
     engine_log i LevelInfo ''Minion stopped'' now (lid 0)
       (persistState i
         (updateState i (no_updates\<lparr>upd_status := Some Stopped\<rparr>) now
           (clearTimer i e)))"

definition pauseMinion :: "string \<Rightarrow> real \<Rightarrow> (nat \<Rightarrow> string) \<Rightarrow> MinionEngine \<Rightarrow> MinionEngine" where
  "pauseMinion i now lid e =
     engine_log i LevelInfo ''Minion paused'' now (lid 0)
       (persistState i
         (updateState i (no_updates\<lparr>upd_status := Some Paused\<rparr>) now
           (clearTimer i e)))"

definition resumeMinion ::
  "string \<Rightarrow> real \<Rightarrow> real \<Rightarrow> (nat \<Rightarrow> string) \<Rightarrow> MinionEngine \<Rightarrow> MinionEngine" where
  "resumeMinion i now rnd lid e =
     (case states e i of
        None \<Rightarrow> e
      | Some state \<Rightarrow>
          if status state \<noteq> Paused then e
          else
            schedulePoll i now rnd
              (engine_log i LevelInfo ''Minion resumed'' now (lid 0)
                (updateState i (no_updates\<lparr>upd_status := Some Running\<rparr>) now e)))"

definition deleteMinion :: "string \<Rightarrow> real \<Rightarrow> (nat \<Rightarrow> string) \<Rightarrow> MinionEngine \<Rightarrow> MinionEngine" where
  "deleteMinion i now lid e =
     (let e1 = stopMinion i now lid e;
          e2 = e1\<lparr>storage := deleteAllMinionData i (storage e1)\<rparr>
      in e2\<lparr>configs := (configs e2)(i := None), states := (states e2)(i := None)\<rparr>)"

text \<open>
  \<open>executePoll\<close> in three pieces. \<open>executePoll_begin\<close> is the code up to the call of
  \<open>rateLimiter.execute\<close>: the guards, the snapshot \<open>state\<close> the poll function gets,
  and the debug log. \<open>executePoll_end\<close> is the code after \<open>execute\<close> has settled
  with \<open>out\<close> at time \<open>now\<close>: it works on the engine as it is then, and on the snapshot
  taken at the beginning. \<open>reschedule\<close> is the last statement but one.
\<close>

definition executePoll_begin ::
  "string \<Rightarrow> real \<Rightarrow> (nat \<Rightarrow> string) \<Rightarrow> MinionEngine
     \<Rightarrow> ((MinionConfig \<times> MinionState) \<times> MinionEngine) option" where
  "executePoll_begin i now lid e =
     (case (configs e i, states e i) of
        (Some cfg, Some state) \<Rightarrow>
          if status state \<noteq> Running then None
          else if \<not> minionPollFunctions e (config_type cfg) then None
          else Some ((cfg, state),
                 engine_log i LevelDebug
                   (''Polling '' @ decimal (length (targetChatIds cfg)) @ '' target(s)...'')
                   now (lid 0) e)
      | _ \<Rightarrow> None)"

definition reschedule :: "string \<Rightarrow> real \<Rightarrow> real \<Rightarrow> MinionEngine \<Rightarrow> MinionEngine" where
  "reschedule i now rnd e =
     (case states e i of
        Some currentState \<Rightarrow>
          if status currentState = Running then schedulePoll i now rnd e else e
      | None \<Rightarrow> e)"

definition executePoll_end ::
  "string \<Rightarrow> real \<Rightarrow> real \<Rightarrow> (nat \<Rightarrow> string) \<Rightarrow> MinionState \<Rightarrow> StateUpdates outcome
     \<Rightarrow> MinionEngine \<Rightarrow> MinionEngine" where
  "executePoll_end i now rnd lid state out e =
     (case out of
        Returned stateUpdates \<Rightarrow>
          let e1 = updateState i
                     (stateUpdates\<lparr>upd_lastPollAt := Some now,
                        upd_errorsCount := Some (errorsCount state)\<rparr>)
                     now e;
              e2 = persistState i e1
          in reschedule i now rnd e2
      | Threw error \<Rightarrow>
          let errorMsg = err_message error;
              e1 = updateState i
                     (no_updates\<lparr>upd_lastError := Some (Some errorMsg),
                        upd_errorsCount := Some (errorsCount state + 1),
                        upd_lastPollAt := Some now\<rparr>)
                     now e;
              e2 = engine_log i LevelError (''Poll failed: '' @ errorMsg) now (lid 1) e1
          in (case states e2 i of
                Some currentState \<Rightarrow>
                  if errorsCount currentState \<ge> 10
                  then pauseMinion i now (\<lambda>k. lid (k + 3))
                         (engine_log i LevelError ''Too many errors, pausing minion''
                            now (lid 2) e2)
                  else reschedule i now rnd e2
              | None \<Rightarrow> reschedule i now rnd e2))"

text \<open>
  One whole poll with nothing else running in between: \<open>pollFn\<close> gives the result of
  the registered poll function on the configuration and the snapshot, \<open>l\<close> is the
  global rate limiter once \<open>acquire()\<close> has returned inside \<open>execute\<close>.
\<close>

definition executePoll ::
  "string \<Rightarrow> real \<Rightarrow> real \<Rightarrow> (nat \<Rightarrow> string)
     \<Rightarrow> (MinionConfig \<Rightarrow> MinionState \<Rightarrow> StateUpdates outcome)
     \<Rightarrow> MinionEngine \<times> RateLimiter \<Rightarrow> MinionEngine \<times> RateLimiter" where
  "executePoll i now rnd lid pollFn w =
     (case executePoll_begin i now lid (fst w) of
        None \<Rightarrow> w
      | Some ((cfg, state), e1) \<Rightarrow>
          (case execute_settle now (pollFn cfg state) (snd w) of
             (out, woken, l1) \<Rightarrow> (executePoll_end i now rnd lid state out e1, l1)))"

subsection \<open>services/alertService.ts\<close>

text \<open>
  The unread counter of the service; \<open>countNotified\<close> collects, in order, the values
  that \<open>notifyCountListeners()\<close> has passed to the unread-count listeners. The service
  works on the alert store of the database.
\<close>

record AlertService =
  unreadCount :: int
  countNotified :: "int list"

definition notifyCountListeners :: "AlertService \<Rightarrow> AlertService" where
  "notifyCountListeners svc = svc\<lparr>countNotified := countNotified svc @ [unreadCount svc]\<rparr>"

definition markRead :: "string \<Rightarrow> AlertService \<times> Storage \<Rightarrow> AlertService \<times> Storage" where
  "markRead alertId w =
     (let db = markAlertRead alertId (snd w);
          svc = (fst w)\<lparr>unreadCount := max 0 (unreadCount (fst w) - 1)\<rparr>
      in (notifyCountListeners svc, db))"

definition markDismissed :: "string \<Rightarrow> AlertService \<times> Storage \<Rightarrow> AlertService \<times> Storage" where
  "markDismissed alertId w = (fst w, markAlertDismissed alertId (snd w))"

definition markAllRead :: "AlertService \<times> Storage \<Rightarrow> AlertService \<times> Storage" where
  "markAllRead w =
     (let db = markAllAlertsRead (snd w);
          svc = (fst w)\<lparr>unreadCount := 0\<rparr>
      in (notifyCountListeners svc, db))"

definition pushAlert :: "MinionAlert \<Rightarrow> AlertService \<times> Storage \<Rightarrow> AlertService \<times> Storage" where
  \<comment> \<open>without the alert listeners, the desktop notification and the sound\<close>
  "pushAlert alert w =
     (let db = saveAlert alert (snd w)
      in if \<not> alert_read alert
         then (notifyCountListeners ((fst w)\<lparr>unreadCount := unreadCount (fst w) + 1\<rparr>), db)
         else (fst w, db))"

subsection \<open>helpers/utils.ts and services/keywordMonitor.ts\<close>

text \<open>
  Strings are lists of characters. What the model cannot compute is an input:
  \<open>toLowerCase\<close> stands for \<open>String.prototype.toLowerCase\<close>, which lowers the letters
  of every script (\<open>ascii_lower\<close> is what it does on ASCII text);
  \<open>regexMatch pattern text\<close> stands for
  \<open>text.match(new RegExp(pattern, 'gi'))\<close>, with \<open>None\<close> when the pattern is invalid
  or nothing matches; \<open>stringify\<close> stands for \<open>JSON.stringify\<close> of the match data;
  \<open>genId k\<close> is the result of the \<open>k\<close>-th call of \<open>generateAlertId()\<close> in a poll;
  \<open>fetchChatMessages\<close> is the bridge.
\<close>

record BridgeMessage =
  msg_id :: int
  msg_chatId :: string
  msg_senderId :: "string option"
  msg_date :: real
  msg_text :: string
  msg_hasMedia :: bool
  msg_isForwarded :: bool

definition ascii_lower :: "string \<Rightarrow> string" where
  "ascii_lower s =
     map (\<lambda>c. if CHR ''A'' \<le> c \<and> c \<le> CHR ''Z'' then char_of (of_char c + (32::nat)) else c) s"

fun starts_with :: "string \<Rightarrow> string \<Rightarrow> bool" where
  "starts_with s [] = True"
| "starts_with [] (k # ks) = False"
| "starts_with (c # cs) (k # ks) = (c = k \<and> starts_with cs ks)"

fun str_includes :: "string \<Rightarrow> string \<Rightarrow> bool" where
  "str_includes [] k = (k = [])"
| "str_includes (c # cs) k = (starts_with (c # cs) k \<or> str_includes cs k)"

fun join :: "string \<Rightarrow> string list \<Rightarrow> string" where
  "join sep [] = []"
| "join sep [x] = x"
| "join sep (x # y # ys) = x @ sep @ join sep (y # ys)"

definition show_int :: "int \<Rightarrow> string" where
  "show_int n = (if n < 0 then ''-'' @ decimal (nat (- n)) else decimal (nat n))"

definition matchesKeywords ::
  "(string \<Rightarrow> string) \<Rightarrow> string \<Rightarrow> string list \<Rightarrow> string list" where
  \<comment> \<open>\<open>lower\<close> is the built-in \<open>toLowerCase\<close>\<close>
  "matchesKeywords lower text kws =
     (let lowerText = lower text
      in filter (\<lambda>keyword. str_includes lowerText (lower keyword)) kws)"

definition matchesRegexPatterns ::
  "(string \<Rightarrow> string \<Rightarrow> string list option) \<Rightarrow> string \<Rightarrow> string list
     \<Rightarrow> (string \<times> string list) list" where
  "matchesRegexPatterns regexMatch text patterns =
     List.map_filter
       (\<lambda>pattern. map_option (\<lambda>matches. (pattern, matches)) (regexMatch pattern text))
       patterns"

definition truncate_text :: "string \<Rightarrow> nat \<Rightarrow> string" where
  "truncate_text str maxLen = (if length str \<le> maxLen then str else take maxLen str @ ''...'')"

record poll_env =
  fetchChatMessages :: "string \<Rightarrow> nat \<Rightarrow> int option \<Rightarrow> BridgeMessage list"
  regexMatch :: "string \<Rightarrow> string \<Rightarrow> string list option"
  toLowerCase :: "string \<Rightarrow> string"
  stringify :: "string list \<Rightarrow> (string \<times> string list) list \<Rightarrow> BridgeMessage \<Rightarrow> string"
  genId :: "nat \<Rightarrow> string"
  poll_now :: real

text \<open>
  What a poll has done so far: the two local variables of \<open>pollKeywordMonitor\<close>, the
  alerts passed to \<open>engine.emitAlert\<close> and the messages passed to \<open>engine.log\<close>.
\<close>

record poll_acc =
  totalScanned :: int
  updatedLastMessageIds :: "string \<Rightarrow> int option"
  emitted :: "MinionAlert list"
  logged :: "string list"

definition keyword_alert ::
  "poll_env \<Rightarrow> MinionConfig \<Rightarrow> KeywordMonitorConfig \<Rightarrow> string \<Rightarrow> BridgeMessage
     \<Rightarrow> string list \<Rightarrow> (string \<times> string list) list \<Rightarrow> nat \<Rightarrow> MinionAlert" where
  "keyword_alert env cfg tc chatId message keywordMatches regexMatches k =
     (let matchDetails =
            join ''; ''
              (map (\<lambda>kw. ''keyword: '' @ quoted kw) keywordMatches @
               map (\<lambda>r. ''regex: /'' @ fst r @ ''/ '' @ [CHR 0xE2, CHR 0x86, CHR 0x92] @ '' '' @
                          join '', '' (snd r))
                   regexMatches)
      in \<lparr>alert_id = genId env k,
          alert_minionId = config_id cfg,
          alert_minionName = config_name cfg,
          alert_minionType = KeywordMonitor,
          alert_alertType = KeywordMatch,
          alert_priority = alertPriority tc,
          alert_title = ''Keyword Match in '' @ chatId,
          alert_description =
            ''Matched: '' @ matchDetails @ [CHR 0x0A, CHR 0x0A] @ ''Message: '' @
            truncate_text (msg_text message) 300,
          alert_chatId = chatId,
          alert_chatTitle = chatId,
          alert_messageId = Some (msg_id message),
          alert_userId = msg_senderId message,
          alert_userName = None,
          alert_timestamp = poll_now env,
          alert_read = False,
          alert_dismissed = False,
          alert_matchData = Some (stringify env keywordMatches regexMatches message),
          alert_evidenceId = None\<rparr>)"

definition check_message ::
  "poll_env \<Rightarrow> MinionConfig \<Rightarrow> KeywordMonitorConfig \<Rightarrow> string \<Rightarrow> poll_acc \<Rightarrow> BridgeMessage
     \<Rightarrow> poll_acc" where
  \<comment> \<open>the body of the loop over \<open>newMessages\<close>\<close>
  "check_message env cfg tc chatId acc message =
     (if msg_text message = [] then acc
      else
        let keywordMatches =
              matchesKeywords (toLowerCase env) (msg_text message) (cfg_keywords tc);
            regexMatches =
              matchesRegexPatterns (regexMatch env) (msg_text message) (regexPatterns tc)
        in if keywordMatches \<noteq> [] \<or> regexMatches \<noteq> []
           then
             let alert = keyword_alert env cfg tc chatId message keywordMatches regexMatches
                           (length (emitted acc));
                 acc1 = acc\<lparr>emitted := emitted acc @ [alert]\<rparr>
             in if autoArchive tc
                then acc1\<lparr>logged := logged acc1 @
                       [''Auto-archiving matched message '' @ show_int (msg_id message) @
                        '' in '' @ chatId]\<rparr>
                else acc1
           else acc)"

definition check_chat ::
  "poll_env \<Rightarrow> MinionConfig \<Rightarrow> KeywordMonitorConfig \<Rightarrow> MinionState \<Rightarrow> poll_acc \<Rightarrow> string
     \<Rightarrow> poll_acc" where
  \<comment> \<open>the body of the loop over \<open>config.targetChatIds\<close>\<close>
  "check_chat env cfg tc state acc chatId =
     (let lastSeenId = (case lastMessageIds state chatId of None \<Rightarrow> 0 | Some v \<Rightarrow> v);
          messages = fetchChatMessages env chatId 50
                       (if lastSeenId > 0 then Some lastSeenId else None)
      in if messages = [] then acc
         else
           let newMessages =
                 (if lastSeenId > 0 then filter (\<lambda>m. msg_id m > lastSeenId) messages
                  else messages)
           in (case map msg_id newMessages of
                 [] \<Rightarrow> acc
               | first # others \<Rightarrow>
                   let maxId = fold max others first;
                       acc1 = acc\<lparr>totalScanned := totalScanned acc + int (length newMessages),
                                updatedLastMessageIds :=
                                  (updatedLastMessageIds acc)(chatId := Some maxId)\<rparr>
                   in foldl (check_message env cfg tc chatId) acc1 newMessages))"

definition pollKeywordMonitor ::
  "poll_env \<Rightarrow> MinionConfig \<Rightarrow> KeywordMonitorConfig \<Rightarrow> MinionState
     \<Rightarrow> poll_acc \<times> StateUpdates" where
  \<comment> \<open>\<open>tc\<close> is \<open>config.typeConfig as KeywordMonitorConfig\<close>\<close>
  "pollKeywordMonitor env cfg tc state =
     (let acc0 = \<lparr>totalScanned = 0, updatedLastMessageIds = lastMessageIds state,
                  emitted = [], logged = []\<rparr>;
          acc = foldl (check_chat env cfg tc state) acc0 (targetChatIds cfg)
      in (acc,
          no_updates\<lparr>upd_messagesScanned := Some (messagesScanned state + totalScanned acc),
            upd_lastMessageIds := Some (updatedLastMessageIds acc)\<rparr>))"

subsection \<open>A minion to run the engine on\<close>

definition example_config :: MinionConfig where
  "example_config =
     \<lparr>config_id = ''m1'', config_name = ''watch'', config_type = KeywordMonitor,
      enabled = True, createdAt = 0, updatedAt = 0, targetChatIds = [''chat1''],
      pollIntervalMs = 60000,
      typeConfig = KeywordMonitorCfg
        \<lparr>cfg_keywords = [''scam''], regexPatterns = [], autoArchive = False,
         alertPriority = Warning, contextMessages = 3\<rparr>\<rparr>"

definition example_state :: "int \<Rightarrow> MinionState" where
  "example_state n =
     (createDefaultState ''m1'')\<lparr>status := Running, errorsCount := n, startedAt := Some 1000\<rparr>"

definition example_engine :: "int \<Rightarrow> MinionEngine" where
  \<comment> \<open>the minion \<open>m1\<close>, running since time 1000, with \<open>n\<close> errors counted\<close>
  "example_engine n =
     \<lparr>timers = (\<lambda>i. None),
      states = (\<lambda>i. None)(''m1'' := Some (example_state n)),
      configs = (\<lambda>i. None)(''m1'' := Some example_config),
      minionPollFunctions = (\<lambda>t. True),
      storage = emptyStorage\<rparr>"

definition example_lid :: "nat \<Rightarrow> string" where
  "example_lid k = ''log-'' @ replicate k CHR ''x''"

definition failing_poll :: "MinionConfig \<Rightarrow> MinionState \<Rightarrow> StateUpdates outcome" where
  \<comment> \<open>a poll function that fails with an ordinary error\<close>
  "failing_poll cfg state = Threw (OtherError ''timeout'')"

definition flood_wait_poll :: "MinionConfig \<Rightarrow> MinionState \<Rightarrow> StateUpdates outcome" where
  \<comment> \<open>a poll function that fails with the rate-limit signal, \<open>seconds = 30\<close>\<close>
  "flood_wait_poll cfg state = Threw (FloodWaitError 30 ''FLOOD_WAIT_30'')"

definition resetting_poll :: "MinionConfig \<Rightarrow> MinionState \<Rightarrow> StateUpdates outcome" where
  \<comment> \<open>a poll function that returns \<open>{ errorsCount: 0 }\<close>\<close>
  "resetting_poll cfg state = Returned (no_updates\<lparr>upd_errorsCount := Some 0\<rparr>)"

subsection \<open>Alerts, messages and logs to run the services on\<close>

definition example_alert :: "string \<Rightarrow> MinionAlert" where
  \<comment> \<open>an unread alert of the minion \<open>m1\<close>\<close>
  "example_alert i =
     \<lparr>alert_id = i, alert_minionId = ''m1'', alert_minionName = ''watch'',
      alert_minionType = KeywordMonitor, alert_alertType = KeywordMatch,
      alert_priority = Warning, alert_title = ''Keyword Match in chat1'',
      alert_description = ''Matched'', alert_chatId = ''chat1'', alert_chatTitle = ''chat1'',
      alert_messageId = Some 7, alert_userId = None, alert_userName = None,
      alert_timestamp = 4000, alert_read = False, alert_dismissed = False,
      alert_matchData = None, alert_evidenceId = None\<rparr>"

definition two_unread :: "AlertService \<times> Storage" where
  \<comment> \<open>the alerts \<open>a1\<close> and \<open>a2\<close> have been pushed, none is read\<close>
  "two_unread =
     (\<lparr>unreadCount = 2, countNotified = [1, 2]\<rparr>,
      emptyStorage\<lparr>ALERTS := [example_alert ''a1'', example_alert ''a2'']\<rparr>)"

definition example_message :: BridgeMessage where
  "example_message =
     \<lparr>msg_id = 7, msg_chatId = ''chat1'', msg_senderId = Some ''u9'', msg_date = 3000,
      msg_text = ''Big SCAM here'', msg_hasMedia = False, msg_isForwarded = False\<rparr>"

definition example_env :: poll_env where
  \<comment> \<open>the chat \<open>chat1\<close> holds one message, which was there before the minion\<close>
  "example_env =
     \<lparr>fetchChatMessages = (\<lambda>chat limit offsetId. if chat = ''chat1'' then [example_message] else []),
      regexMatch = (\<lambda>pattern text. None),
      toLowerCase = ascii_lower,
      stringify = (\<lambda>kws rs message. ''{}''),
      genId = (\<lambda>k. ''alert-'' @ replicate k CHR ''x''),
      poll_now = 5000\<rparr>"

definition example_tc :: KeywordMonitorConfig where
  "example_tc =
     \<lparr>cfg_keywords = [''scam''], regexPatterns = [], autoArchive = False,
      alertPriority = Warning, contextMessages = 3\<rparr>"

text \<open>
  A message is a match when it has text and a keyword or a pattern matches the text:
  the condition under which the loop body of \<open>pollKeywordMonitor\<close> emits an alert.
\<close>

definition is_match :: "poll_env \<Rightarrow> KeywordMonitorConfig \<Rightarrow> BridgeMessage \<Rightarrow> bool" where
  "is_match env tc message =
     (msg_text message \<noteq> [] \<and>
      (matchesKeywords (toLowerCase env) (msg_text message) (cfg_keywords tc) \<noteq> [] \<or>
       matchesRegexPatterns (regexMatch env) (msg_text message) (regexPatterns tc) \<noteq> []))"

definition old_log :: "nat \<Rightarrow> MinionLogEntry" where
  \<comment> \<open>the \<open>k\<close>-th log entry of the minion \<open>m1\<close>, written at time \<open>k\<close>\<close>
  "old_log k =
     \<lparr>log_id = ''entry-'' @ replicate k CHR ''y'', log_minionId = ''m1'', log_level = LevelDebug,
      log_message = ''Polling 1 target(s)...'', log_timestamp = real k, log_data = None\<rparr>"

definition engine_with_logs :: "nat \<Rightarrow> MinionEngine" where
  \<comment> \<open>the running minion \<open>m1\<close> with its configuration, its state and \<open>n\<close> log entries stored\<close>
  "engine_with_logs n =
     (example_engine 0)
       \<lparr>storage :=
          \<lparr>CONFIGS = [example_config], STATES = [example_state 0], ALERTS = [],
           LOGS = map old_log [0..<n]\<rparr>\<rparr>"

text \<open>
  The value of the local variable \<open>newMessages\<close> of \<open>pollKeywordMonitor\<close> for a chat:
  with no cursor (or the cursor 0) all fetched messages, otherwise the fetched messages
  above the cursor.
\<close>

definition new_messages :: "poll_env \<Rightarrow> MinionState \<Rightarrow> string \<Rightarrow> BridgeMessage list" where
  "new_messages env state chatId =
     (case lastMessageIds state chatId of
        None \<Rightarrow> fetchChatMessages env chatId 50 None
      | Some cursor \<Rightarrow>
          if 0 < cursor
          then filter (\<lambda>m. cursor < msg_id m) (fetchChatMessages env chatId 50 (Some cursor))
          else fetchChatMessages env chatId 50 None)"

definition alert_ref :: "MinionAlert \<Rightarrow> string \<times> int option" where
  "alert_ref a = (alert_chatId a, alert_messageId a)"

section \<open>Properties\<close>

subsection \<open>The active count is never negative\<close>

lemma activeCount_acquire_enter:
  "activeCount (snd (acquire_enter now l)) = activeCount l + 1"
  by (simp add: acquire_enter_def)

lemma activeCount_acquire_spacing:
  "0 \<le> activeCount l \<Longrightarrow> 0 \<le> activeCount (snd (acquire_spacing now rnd l))"
  by (simp add: acquire_spacing_def acquire_enter_def Let_def)

lemma activeCount_acquire_concurrency:
  "0 \<le> activeCount l \<Longrightarrow> 0 \<le> activeCount (snd (acquire_concurrency c now rnd l))"
  by (simp add: acquire_concurrency_def activeCount_acquire_spacing)

lemma activeCount_acquire:
  "0 \<le> activeCount l \<Longrightarrow> 0 \<le> activeCount (snd (acquire c now rnd l))"
  by (simp add: acquire_def Let_def activeCount_acquire_concurrency)

lemma activeCount_release: "0 \<le> activeCount (snd (release l))"
  by (simp add: release_def Let_def split: list.splits)

lemma activeCount_reset: "activeCount (snd (reset l)) = 0"
  by (simp add: reset_def)

lemma activeCount_perform:
  assumes "0 \<le> activeCount (limiter s)"
  shows "0 \<le> activeCount (limiter (perform now a s))"
proof (cases a)
  case (Acquire c rnd)
  with assms show ?thesis
    by (simp add: put_stage_def activeCount_acquire split: option.splits)
next
  case (TimerFires c rnd)
  with assms show ?thesis
    by (simp add: put_stage_def activeCount_acquire_concurrency activeCount_acquire_enter
        split: option.splits stage.splits)
next
  case (Continue c rnd)
  with assms show ?thesis
    by (simp add: put_stage_def activeCount_acquire_spacing split: option.splits stage.splits)
next
  case Release
  have "0 \<le> activeCount (snd (release (limiter s)))" by (rule activeCount_release)
  with Release show ?thesis
    by (cases "release (limiter s)") (auto split: option.splits)
next
  case ReportSuccess
  with assms show ?thesis by (simp add: reportSuccess_def)
next
  case (ReportFloodWait secs)
  with assms show ?thesis by (simp add: reportFloodWait_def Let_def)
next
  case ReportError
  with assms show ?thesis by (simp add: reportError_def)
next
  case Reset
  have "activeCount (snd (reset (limiter s))) = 0" by (rule activeCount_reset)
  with Reset show ?thesis
    by (cases "reset (limiter s)") auto
qed

lemma activeCount_step:
  "0 \<le> activeCount (limiter s) \<Longrightarrow> 0 \<le> activeCount (limiter (step e s))"
  using activeCount_perform [of "s\<lparr>clock := fst e\<rparr>" "fst e" "snd e"]
  by (simp add: step_def)

lemma activeCount_run:
  "0 \<le> activeCount (limiter s) \<Longrightarrow> 0 \<le> activeCount (limiter (run es s))"
  by (induction es arbitrary: s) (simp_all add: activeCount_step)

text \<open>
  C10. After any sequence of calls on a new rate limiter (in particular with more
  \<open>release()\<close> calls than \<open>acquire()\<close> calls, since a release is possible at any time),
  the \<open>activeCount\<close> reported by \<open>getStatus()\<close> is at least 0.
\<close>

theorem activeCount_never_negative:
  "0 \<le> status_activeCount (getStatus now (limiter (run es (newSystem cfg))))"
proof -
  have "0 \<le> activeCount (limiter (newSystem cfg))"
    by (simp add: newSystem_def newRateLimiter_def)
  then have "0 \<le> activeCount (limiter (run es (newSystem cfg)))"
    by (rule activeCount_run)
  then show ?thesis by (simp add: getStatus_def)
qed
subsection \<open>The queue holds waiting calls only; a flood sleep lasts until its timer is due\<close>

lemma enqueues_enter: "enqueues c l (acquire_enter now l)"
  by (simp add: enqueues_def acquire_enter_def)

lemma enqueues_spacing: "enqueues c l (acquire_spacing now rnd l)"
  by (simp add: enqueues_def acquire_spacing_def acquire_enter_def Let_def)

lemma enqueues_concurrency: "enqueues c l (acquire_concurrency c now rnd l)"
  using enqueues_spacing [of c l now rnd]
  by (simp add: enqueues_def acquire_concurrency_def)

lemma enqueues_acquire: "enqueues c l (acquire c now rnd l)"
  using enqueues_concurrency [of c l now rnd]
  by (simp add: enqueues_def acquire_def Let_def)

lemma queue_ok_put_stage:
  assumes "queue_ok s" and "c \<notin> set (queue (limiter s))" and "enqueues c (limiter s) r"
  shows "queue_ok (put_stage c r s)"
  using assms by (auto simp: queue_ok_def put_stage_def enqueues_def split: if_splits)

lemma not_queued:
  "queue_ok s \<Longrightarrow> callers s c \<noteq> Some Queued \<Longrightarrow> c \<notin> set (queue (limiter s))"
  by (auto simp: queue_ok_def)

lemma queue_ok_perform:
  assumes "queue_ok s"
  shows "queue_ok (perform now a s)"
proof (cases a)
  case (Acquire c rnd)
  show ?thesis
  proof (cases "callers s c")
    case None
    then have "c \<notin> set (queue (limiter s))" using assms by (simp add: not_queued)
    with assms have "queue_ok (put_stage c (acquire c now rnd (limiter s)) s)"
      by (rule queue_ok_put_stage) (rule enqueues_acquire)
    with Acquire None show ?thesis by simp
  next
    case (Some st)
    with Acquire assms show ?thesis by simp
  qed
next
  case (TimerFires c rnd)
  show ?thesis
  proof (cases "callers s c")
    case None
    with TimerFires assms show ?thesis by simp
  next
    case (Some st)
    show ?thesis
    proof (cases st)
      case (FloodSleep due)
      with Some have "c \<notin> set (queue (limiter s))" using assms by (simp add: not_queued)
      with assms have "queue_ok (put_stage c (acquire_concurrency c now rnd (limiter s)) s)"
        by (rule queue_ok_put_stage) (rule enqueues_concurrency)
      with TimerFires Some FloodSleep assms show ?thesis by simp
    next
      case (SpacingSleep due)
      with Some have "c \<notin> set (queue (limiter s))" using assms by (simp add: not_queued)
      with assms have "queue_ok (put_stage c (acquire_enter now (limiter s)) s)"
        by (rule queue_ok_put_stage) (rule enqueues_enter)
      with TimerFires Some SpacingSleep assms show ?thesis by simp
    qed (use TimerFires Some assms in simp_all)
  qed
next
  case (Continue c rnd)
  show ?thesis
  proof (cases "callers s c = Some Resolved")
    case True
    then have "c \<notin> set (queue (limiter s))" using assms by (simp add: not_queued)
    with assms have "queue_ok (put_stage c (acquire_spacing now rnd (limiter s)) s)"
      by (rule queue_ok_put_stage) (rule enqueues_spacing)
    with Continue True show ?thesis by simp
  next
    case False
    with Continue assms show ?thesis by (simp split: option.splits stage.splits)
  qed
next
  case Release
  with assms show ?thesis
    by (auto simp: queue_ok_def release_def Let_def split: list.splits)
next
  case ReportSuccess
  with assms show ?thesis by (simp add: queue_ok_def reportSuccess_def)
next
  case (ReportFloodWait secs)
  with assms show ?thesis by (simp add: queue_ok_def reportFloodWait_def Let_def)
next
  case ReportError
  with assms show ?thesis by (simp add: queue_ok_def reportError_def)
next
  case Reset
  then show ?thesis by (simp add: queue_ok_def reset_def)
qed

lemma queue_ok_step: "queue_ok s \<Longrightarrow> queue_ok (step e s)"
  using queue_ok_perform [of "s\<lparr>clock := fst e\<rparr>" "fst e" "snd e"]
  by (simp add: step_def queue_ok_def)

lemma queue_ok_run: "queue_ok s \<Longrightarrow> queue_ok (run es s)"
  by (induction es arbitrary: s) (simp_all add: queue_ok_step)

lemma queue_ok_new: "queue_ok (newSystem cfg)"
  by (simp add: queue_ok_def newSystem_def newRateLimiter_def)

lemma clock_perform: "clock (perform now a s) = clock s"
  by (cases a) (auto simp: put_stage_def split: option.splits stage.splits prod.splits)

lemma clock_step: "clock s \<le> clock (step e s)"
  by (simp add: step_def clock_perform)

lemma clock_run: "clock s \<le> clock (run es s)"
proof (induction es arbitrary: s)
  case Nil
  show ?case by simp
next
  case (Cons e es)
  have "clock s \<le> clock (step e s)" by (rule clock_step)
  also have "\<dots> \<le> clock (run es (step e s))" by (rule Cons.IH)
  finally show ?case by simp
qed

lemma callers_perform_asleep:
  assumes "queue_ok s" and "callers s c = Some (FloodSleep due)" and "now < due"
  shows "callers (perform now a s) c = Some (FloodSleep due)"
proof (cases a)
  case Release
  from assms have "c \<notin> set (queue (limiter s))" by (simp add: not_queued)
  with Release assms show ?thesis
    by (auto simp: release_def Let_def split: list.splits)
next
  case Reset
  from assms have "c \<notin> set (queue (limiter s))" by (simp add: not_queued)
  with Reset assms show ?thesis by (simp add: reset_def)
qed (use assms in \<open>auto simp: put_stage_def split: option.splits stage.splits\<close>)

lemma held_back_step:
  assumes "queue_ok s" and "held_back due c s"
  shows "held_back due c (step e s)"
proof (cases "due \<le> clock (step e s)")
  case True
  then show ?thesis by (simp add: held_back_def)
next
  case False
  have "clock s \<le> clock (step e s)" by (rule clock_step)
  with False assms have asleep: "callers s c = Some (FloodSleep due)"
    by (auto simp: held_back_def)
  show ?thesis
  proof (cases "fst e < clock s")
    case True
    with asleep show ?thesis by (simp add: step_def held_back_def)
  next
    case stepped: False
    with False have "fst e < due" by (simp add: step_def clock_perform)
    moreover have "queue_ok (s\<lparr>clock := fst e\<rparr>)" using assms by (simp add: queue_ok_def)
    moreover have "callers (s\<lparr>clock := fst e\<rparr>) c = Some (FloodSleep due)"
      using asleep by simp
    ultimately have "callers (perform (fst e) (snd e) (s\<lparr>clock := fst e\<rparr>)) c = Some (FloodSleep due)"
      by (simp add: callers_perform_asleep)
    with stepped show ?thesis by (simp add: step_def held_back_def)
  qed
qed

lemma held_back_run:
  "queue_ok s \<Longrightarrow> held_back due c s \<Longrightarrow> held_back due c (run es s)"
  by (induction es arbitrary: s) (simp_all add: held_back_step queue_ok_step)

lemma config_perform: "config (limiter (perform now a s)) = config (limiter s)"
  by (cases a)
    (auto simp: put_stage_def acquire_def acquire_concurrency_def acquire_spacing_def
      acquire_enter_def release_def reset_def reportSuccess_def reportError_def
      reportFloodWait_def Let_def
      split: option.splits stage.splits list.splits)

lemma config_step: "config (limiter (step e s)) = config (limiter s)"
  by (simp add: step_def config_perform)

lemma config_run: "config (limiter (run es s)) = config (limiter s)"
  by (induction es arbitrary: s) (simp_all add: config_step)

lemma held_back_acquire:
  assumes "callers s c = None" and "clock s \<le> t"
  shows "held_back (floodWaitUntil (limiter s)) c (step (t, Acquire c rnd) s)"
proof (cases "t < floodWaitUntil (limiter s)")
  case True
  with assms show ?thesis
    by (simp add: held_back_def step_def put_stage_def acquire_def Let_def)
next
  case False
  with assms show ?thesis
    by (simp add: held_back_def step_def clock_perform put_stage_def)
qed

lemma floodWaitUntil_perform:
  assumes "keeps_deadline a"
  shows "floodWaitUntil (limiter (perform now a s)) = floodWaitUntil (limiter s)"
  using assms
  by (cases a)
    (auto simp: put_stage_def acquire_def acquire_concurrency_def acquire_spacing_def
      acquire_enter_def release_def reportSuccess_def reportError_def Let_def
      split: option.splits stage.splits list.splits)

lemma floodWaitUntil_step:
  "keeps_deadline (snd e) \<Longrightarrow> floodWaitUntil (limiter (step e s)) = floodWaitUntil (limiter s)"
  by (simp add: step_def floodWaitUntil_perform)

lemma floodWaitUntil_run:
  "undisturbed es \<Longrightarrow> floodWaitUntil (limiter (run es s)) = floodWaitUntil (limiter s)"
  by (induction es arbitrary: s) (simp_all add: undisturbed_def floodWaitUntil_step)

text \<open>
  C6, as the code has it. On a limiter reached by any run, \<open>reportFloodWait(waitSeconds)\<close>
  at time \<open>t0\<close> sets the flood-wait deadline to \<open>t0 + (waitSeconds + 5) * 1000\<close>. Whatever
  calls follow the report (the \<open>release()\<close> of \<open>execute\<close>, other \<open>acquire()\<close> calls and
  their continuations, \<open>reportSuccess()\<close>, \<open>reportError()\<close>), as long as there is no
  \<open>reset()\<close> and no further \<open>reportFloodWait()\<close> among them, an \<open>acquire()\<close> that
  starts then has not returned before the clock reaches that deadline, whatever happens
  after its start. The backoff becomes
  \<open>min (currentBackoff * backoffMultiplier + (waitSeconds + 5) * 1000) maxBackoffMs\<close>:
  strictly more than before when the old value is below the cap (and not negative, with
  a multiplier of at least 1 and a positive wait).
\<close>

theorem reportFloodWait_holds_next_acquire:
  assumes "s = run es0 (newSystem cfg)"
    and "clock s \<le> t0"
    and "s1 = step (t0, ReportFloodWait waitSeconds) s"
    and "undisturbed es1" and "s2 = run es1 s1"
    and "clock s2 \<le> t" and "callers s2 c = None"
    and "s3 = run es (step (t, Acquire c rnd) s2)"
  shows "floodWaitUntil (limiter s1) = t0 + (waitSeconds + 5) * 1000
       \<and> (callers s3 c = Some Acquired \<longrightarrow> t0 + (waitSeconds + 5) * 1000 \<le> clock s3)
       \<and> currentBackoff (limiter s1) =
           min (currentBackoff (limiter s) * backoffMultiplier cfg + (waitSeconds + 5) * 1000)
               (maxBackoffMs cfg)
       \<and> (0 \<le> currentBackoff (limiter s) \<and> currentBackoff (limiter s) < maxBackoffMs cfg \<and>
            1 \<le> backoffMultiplier cfg \<and> - 5 < waitSeconds
            \<longrightarrow> currentBackoff (limiter s) < currentBackoff (limiter s1))"
proof -
  have cfg: "config (limiter s) = cfg"
    using assms(1) by (simp add: config_run newSystem_def newRateLimiter_def)
  have s1: "s1 = s\<lparr>clock := t0, limiter := reportFloodWait waitSeconds t0 (limiter s)\<rparr>"
    using assms(2,3) by (simp add: step_def)
  have deadline: "floodWaitUntil (limiter s1) = t0 + (waitSeconds + 5) * 1000"
    by (simp add: s1 reportFloodWait_def Let_def)
  have backoff: "currentBackoff (limiter s1) =
      min (currentBackoff (limiter s) * backoffMultiplier cfg + (waitSeconds + 5) * 1000)
          (maxBackoffMs cfg)"
    by (simp add: s1 reportFloodWait_def Let_def cfg)
  have "queue_ok s" using assms(1) by (simp add: queue_ok_run queue_ok_new)
  then have "queue_ok s1" using assms(3) by (simp add: queue_ok_step)
  then have ok2: "queue_ok s2" using assms(5) by (simp add: queue_ok_run)
  have stands: "floodWaitUntil (limiter s2) = t0 + (waitSeconds + 5) * 1000"
    using assms(4,5) by (simp add: floodWaitUntil_run deadline)
  have "held_back (floodWaitUntil (limiter s2)) c (step (t, Acquire c rnd) s2)"
    using assms(7,6) by (rule held_back_acquire)
  moreover have "queue_ok (step (t, Acquire c rnd) s2)" using ok2 by (rule queue_ok_step)
  ultimately have "held_back (floodWaitUntil (limiter s2)) c s3"
    using assms(8) by (simp add: held_back_run)
  then have blocked: "callers s3 c = Some Acquired \<longrightarrow> t0 + (waitSeconds + 5) * 1000 \<le> clock s3"
    by (auto simp: held_back_def stands)
  have grows: "currentBackoff (limiter s) < currentBackoff (limiter s1)"
    if "0 \<le> currentBackoff (limiter s)" and "currentBackoff (limiter s) < maxBackoffMs cfg"
      and "1 \<le> backoffMultiplier cfg" and "- 5 < waitSeconds"
  proof -
    have "currentBackoff (limiter s) * 1 \<le> currentBackoff (limiter s) * backoffMultiplier cfg"
      using that(1,3) by (rule mult_left_mono [rotated])
    moreover have "0 < (waitSeconds + 5) * 1000" using that(4) by simp
    ultimately have
      "currentBackoff (limiter s)
         < currentBackoff (limiter s) * backoffMultiplier cfg + (waitSeconds + 5) * 1000"
      by linarith
    with that(2) show ?thesis by (simp add: backoff)
  qed
  from deadline blocked backoff grows show ?thesis by blast
qed

text \<open>
  The run of the witness is the one \<open>execute\<close> makes: call 0 acquires at 10000, its
  function fails with the rate-limit signal at 11000, \<open>reportFloodWait(30)\<close> and
  \<open>release()\<close> follow, and call 1 starts at once. It sleeps until 46000, then for the
  spacing delay until 47000.
\<close>

theorem reportFloodWait_holds_next_acquire_witness:
  "undisturbed [(11000, Release)]
   \<and> callers (run [(46000, TimerFires 1 0), (47000, TimerFires 1 0)]
             (step (11000, Acquire 1 0)
               (run [(11000, Release)]
                 (step (11000, ReportFloodWait 30)
                   (run [(10000, Acquire 0 0)] (newSystem DEFAULT_CONFIG)))))) 1 = Some Acquired
   \<and> (11000::real) + (30 + 5) * 1000
       \<le> clock (run [(46000, TimerFires 1 0), (47000, TimerFires 1 0)]
                 (step (11000, Acquire 1 0)
                   (run [(11000, Release)]
                     (step (11000, ReportFloodWait 30)
                       (run [(10000, Acquire 0 0)] (newSystem DEFAULT_CONFIG))))))
   \<and> floodWaitUntil (limiter (step (11000, ReportFloodWait 30)
         (run [(10000, Acquire 0 0)] (newSystem DEFAULT_CONFIG)))) = 11000 + (30 + 5) * 1000
   \<and> currentBackoff (limiter (run [(10000, Acquire 0 0)] (newSystem DEFAULT_CONFIG)))
       < currentBackoff (limiter (step (11000, ReportFloodWait 30)
           (run [(10000, Acquire 0 0)] (newSystem DEFAULT_CONFIG))))"
proof -
  note defs = step_def newSystem_def newRateLimiter_def DEFAULT_CONFIG_def put_stage_def
    acquire_def acquire_concurrency_def acquire_spacing_def acquire_enter_def
    getJitteredDelay_def reportFloodWait_def release_def Let_def
  have quiet: "undisturbed [(11000, Release)]" by (simp add: undisturbed_def)
  have reached: "callers (run [(46000, TimerFires 1 0), (47000, TimerFires 1 0)]
             (step (11000, Acquire 1 0)
               (run [(11000, Release)]
                 (step (11000, ReportFloodWait 30)
                   (run [(10000, Acquire 0 0)] (newSystem DEFAULT_CONFIG)))))) 1 = Some Acquired"
    by (simp add: defs)
  have early: "clock (run [(10000, Acquire 0 0)] (newSystem DEFAULT_CONFIG)) \<le> 11000"
    by (simp add: defs)
  have later: "clock (run [(11000, Release)]
                 (step (11000, ReportFloodWait 30)
                   (run [(10000, Acquire 0 0)] (newSystem DEFAULT_CONFIG)))) \<le> 11000"
    by (simp add: defs)
  have fresh: "callers (run [(11000, Release)]
                 (step (11000, ReportFloodWait 30)
                   (run [(10000, Acquire 0 0)] (newSystem DEFAULT_CONFIG)))) 1 = None"
    by (simp add: defs)
  have below: "0 \<le> currentBackoff (limiter (run [(10000, Acquire 0 0)] (newSystem DEFAULT_CONFIG)))
      \<and> currentBackoff (limiter (run [(10000, Acquire 0 0)] (newSystem DEFAULT_CONFIG)))
          < maxBackoffMs DEFAULT_CONFIG
      \<and> 1 \<le> backoffMultiplier DEFAULT_CONFIG \<and> - 5 < (30::real)"
    by (simp add: defs)
  from reached below quiet
    reportFloodWait_holds_next_acquire [OF refl early refl quiet refl later fresh refl,
      of "[(46000, TimerFires 1 0), (47000, TimerFires 1 0)]" 0]
  show ?thesis by blast
qed

text \<open>
  The claim as stated fails in two ways. At the cap: after eight \<open>reportError()\<close> calls
  the backoff of the default limiter is \<open>maxBackoffMs\<close>, and \<open>reportFloodWait(30)\<close>
  leaves it there. And after a \<open>reset()\<close>: the report at 1000 sets the deadline 36000,
  \<open>reset()\<close> clears it, and the next \<open>acquire()\<close> has returned at 2000.
\<close>

theorem reportFloodWait_counterexample:
  "\<not> currentBackoff (limiter (run (replicate 8 (0, ReportError)) (newSystem DEFAULT_CONFIG)))
     < currentBackoff
         (limiter (step (1000, ReportFloodWait 30)
            (run (replicate 8 (0, ReportError)) (newSystem DEFAULT_CONFIG))))
   \<and> callers (run [(1000, ReportFloodWait 30), (1001, Reset), (1002, Acquire 0 0),
                    (2000, TimerFires 0 0)] (newSystem DEFAULT_CONFIG)) 0 = Some Acquired
   \<and> clock (run [(1000, ReportFloodWait 30), (1001, Reset), (1002, Acquire 0 0),
                  (2000, TimerFires 0 0)] (newSystem DEFAULT_CONFIG)) < 1000 + (30 + 5) * 1000"
  by (simp add: numeral_eq_Suc step_def newSystem_def newRateLimiter_def DEFAULT_CONFIG_def
      reportError_def reportFloodWait_def reset_def put_stage_def acquire_def
      acquire_concurrency_def acquire_spacing_def acquire_enter_def getJitteredDelay_def
      Let_def)

text \<open>
  C3. A run on the default limiter (\<open>maxConcurrent = 1\<close>) in which every \<open>release()\<close>
  follows an \<open>acquire()\<close> that has returned: call 0 acquires; call 1 is queued; call 0
  releases, and call 1, taken from the queue, goes to sleep for the spacing delay;
  call 2 arrives, finds \<open>activeCount = 0\<close>, and sleeps as well; both wake up and
  both increment the counter.
\<close>

theorem activeCount_exceeds_maxConcurrent:
  "maxConcurrent DEFAULT_CONFIG = 1
   \<and> status_activeCount (getStatus 1002000 (limiter (run
        [(1000000, Acquire 0 0), (1000010, Acquire 1 0), (1000500, Release),
         (1000500, Continue 1 0), (1000600, Acquire 2 0),
         (1002000, TimerFires 1 0), (1002000, TimerFires 2 0)]
        (newSystem DEFAULT_CONFIG)))) = 2"
  by (simp add: step_def newSystem_def newRateLimiter_def DEFAULT_CONFIG_def put_stage_def
      acquire_def acquire_concurrency_def acquire_spacing_def acquire_enter_def
      getJitteredDelay_def release_def getStatus_def Let_def)

subsection \<open>Rounding to binary64\<close>

lemma round_half_even_cases:
  "round_half_even y = \<lfloor>y\<rfloor> \<or> round_half_even y = \<lfloor>y\<rfloor> + 1"
  by (simp add: round_half_even_def Let_def)

lemma round_half_even_int [simp]: "round_half_even (of_int n) = n"
  by (simp add: round_half_even_def)

lemma round_half_even_le:
  assumes "y \<le> of_int n"
  shows "round_half_even y \<le> n"
proof (cases "y = of_int n")
  case True
  then show ?thesis by simp
next
  case False
  with assms have "y < of_int n" by simp
  then have "\<lfloor>y\<rfloor> < n" by (simp add: floor_less_iff)
  with round_half_even_cases [of y] show ?thesis by auto
qed

lemma round_half_even_nonneg:
  assumes "0 \<le> y"
  shows "0 \<le> round_half_even y"
proof -
  from assms have "0 \<le> \<lfloor>y\<rfloor>" by simp
  with round_half_even_cases [of y] show ?thesis by auto
qed

lemma round_half_even_error: "\<bar>of_int (round_half_even y) - y\<bar> \<le> 1 / 2"
proof -
  have "of_int \<lfloor>y\<rfloor> \<le> y" and "y < of_int \<lfloor>y\<rfloor> + 1" by linarith+
  then show ?thesis
    by (auto simp: round_half_even_def Let_def abs_le_iff)
qed

lemma floor_log2_bounds:
  assumes "1 \<le> x"
  shows "2 powi floor_log2 x \<le> x" and "x < 2 powi (floor_log2 x + 1)"
proof -
  from assms have pos: "0 < \<lfloor>x\<rfloor>" by simp
  from bitlen_bounds [OF pos]
  have lo: "2 ^ nat (bitlen \<lfloor>x\<rfloor> - 1) \<le> \<lfloor>x\<rfloor>" and hi: "\<lfloor>x\<rfloor> < 2 ^ nat (bitlen \<lfloor>x\<rfloor>)"
    by simp_all
  from pos have len: "1 \<le> bitlen \<lfloor>x\<rfloor>" by (auto simp: bitlen_alt_def)
  have "(2::real) ^ nat (bitlen \<lfloor>x\<rfloor> - 1) = of_int (2 ^ nat (bitlen \<lfloor>x\<rfloor> - 1))" by simp
  also have "\<dots> \<le> of_int \<lfloor>x\<rfloor>" using lo by (simp only: of_int_le_iff)
  also have "\<dots> \<le> x" by simp
  finally show "2 powi floor_log2 x \<le> x"
    using assms len by (simp add: floor_log2_def power_int_def)
  from hi have "\<lfloor>x\<rfloor> + 1 \<le> 2 ^ nat (bitlen \<lfloor>x\<rfloor>)" by simp
  then have "of_int (\<lfloor>x\<rfloor> + 1) \<le> (of_int (2 ^ nat (bitlen \<lfloor>x\<rfloor>)) :: real)"
    by (simp only: of_int_le_iff)
  then have above: "of_int \<lfloor>x\<rfloor> + 1 \<le> (2::real) ^ nat (bitlen \<lfloor>x\<rfloor>)" by simp
  have "x < of_int \<lfloor>x\<rfloor> + 1" by linarith
  with above have "x < 2 ^ nat (bitlen \<lfloor>x\<rfloor>)" by linarith
  then show "x < 2 powi (floor_log2 x + 1)"
    using assms len by (simp add: floor_log2_def power_int_def)
qed

lemma floor_log2_less:
  assumes "0 < x" and "x < 2 powi m" and "0 < m"
  shows "floor_log2 x < m"
proof (cases "1 \<le> x")
  case True
  then have "2 powi floor_log2 x \<le> x" by (rule floor_log2_bounds)
  with assms(2) have "(2::real) powi floor_log2 x < 2 powi m" by simp
  then show ?thesis using assms(3) by (intro power_int_le_imp_less_exp [of "2::real"]) simp_all
next
  case False
  have "0 \<le> bitlen (\<lceil>1 / x\<rceil> - 1)" by (rule bitlen_nonneg)
  with False assms(3) show ?thesis by (simp add: floor_log2_def)
qed

lemma to_double_zero [simp]: "to_double 0 = 0"
  by (simp add: to_double_def)

lemma to_double_nonneg:
  assumes "0 \<le> x"
  shows "0 \<le> to_double x"
proof (cases "x = 0")
  case True
  then show ?thesis by simp
next
  case False
  with assms have "0 < x" by simp
  then have "0 \<le> round_half_even (\<bar>x\<bar> / 2 powi ulp_exponent x)"
    by (intro round_half_even_nonneg) simp
  with \<open>0 < x\<close> show ?thesis by (simp add: to_double_def Let_def)
qed

text \<open>Rounding is within half a unit in the last place: a relative error of at most \<open>2^-53\<close>.\<close>

lemma to_double_error:
  assumes "1 \<le> x"
  shows "\<bar>to_double x - x\<bar> \<le> x / 2 ^ 53"
proof -
  define k where "k = floor_log2 x"
  define s :: real where "s = 2 powi (k - 52)"
  have s: "0 < s" by (simp add: s_def)
  from assms have "0 \<le> k"
    by (auto simp: k_def floor_log2_def bitlen_alt_def)
  then have e: "ulp_exponent x = k - 52"
    using assms by (simp add: ulp_exponent_def k_def)
  have fl: "to_double x = of_int (round_half_even (x / s)) * s"
    using assms by (simp add: to_double_def e s_def Let_def)
  have "to_double x - x = (of_int (round_half_even (x / s)) - x / s) * s"
    using s by (simp add: fl left_diff_distrib)
  then have "\<bar>to_double x - x\<bar> = \<bar>of_int (round_half_even (x / s)) - x / s\<bar> * s"
    using s by (simp add: abs_mult)
  also have "\<dots> \<le> 1 / 2 * s"
    using s round_half_even_error [of "x / s"] by (intro mult_right_mono) simp_all
  also have "\<dots> = 2 powi k / 2 ^ 53"
    by (simp add: s_def power_int_diff)
  also have "\<dots> \<le> x / 2 ^ 53"
    using floor_log2_bounds(1) [OF assms] by (simp add: k_def divide_right_mono)
  finally show ?thesis .
qed

text \<open>A number that is not above 5000 is not rounded above 5000.\<close>

lemma to_double_le_5000:
  assumes "0 \<le> x" and "x \<le> 5000"
  shows "to_double x \<le> 5000"
proof (cases "x = 0")
  case True
  then show ?thesis by simp
next
  case False
  with assms have pos: "0 < x" by simp
  define e where "e = ulp_exponent x"
  have "x < 2 powi 13" using assms(2) by simp
  with pos have "floor_log2 x < 13" by (rule floor_log2_less) simp
  then have e: "e \<le> - 40" using pos by (simp add: e_def ulp_exponent_def)
  define s :: real where "s = 2 powi e"
  have s: "0 < s" by (simp add: s_def)
  have "5000 / s = 5000 * 2 ^ nat (- e)"
    using e by (simp add: s_def power_int_def field_simps)
  also have "\<dots> = of_int (5000 * 2 ^ nat (- e))" by simp
  finally have whole: "5000 / s = of_int (5000 * 2 ^ nat (- e))" .
  have "x / s \<le> 5000 / s" using assms(2) s by (simp add: divide_right_mono)
  then have "round_half_even (x / s) \<le> 5000 * 2 ^ nat (- e)"
    unfolding whole by (rule round_half_even_le)
  then have "of_int (round_half_even (x / s)) \<le> (of_int (5000 * 2 ^ nat (- e)) :: real)"
    by (simp only: of_int_le_iff)
  then have "of_int (round_half_even (x / s)) \<le> 5000 / s" by (simp only: whole)
  then have "of_int (round_half_even (x / s)) * s \<le> 5000"
    using s by (simp add: pos_le_divide_eq)
  with pos show ?thesis by (simp add: to_double_def Let_def e_def s_def)
qed


text \<open>
  The two sums of the scheduler. \<open>(now + interval) + jitter\<close>, rounded after each
  addition, and \<open>now\<close> plus the rounded \<open>interval + jitter\<close> differ by at most four
  rounding errors.
\<close>

lemma schedule_rounding:
  assumes "0 \<le> now" and "30000 \<le> interval" and "0 \<le> jitter"
  shows "\<bar>to_double (to_double (now + interval) + jitter) - (now + to_double (interval + jitter))\<bar>
           \<le> (now + interval + jitter) / 2 ^ 51"
proof -
  have p53: "(2::real) ^ 53 = 9007199254740992" and p51: "(2::real) ^ 51 = 2251799813685248"
    by simp_all
  define a where "a = to_double (now + interval)"
  define d where "d = to_double (interval + jitter)"
  define n where "n = to_double (a + jitter)"
  have "1 \<le> now + interval" using assms by simp
  then have "\<bar>a - (now + interval)\<bar> \<le> (now + interval) / 2 ^ 53"
    unfolding a_def by (rule to_double_error)
  then have a_err:
    "\<bar>a - (now + interval)\<bar> \<le> now / 9007199254740992 + interval / 9007199254740992"
    by (simp only: p53 add_divide_distrib)
  have "1 \<le> interval + jitter" using assms by simp
  then have "\<bar>d - (interval + jitter)\<bar> \<le> (interval + jitter) / 2 ^ 53"
    unfolding d_def by (rule to_double_error)
  then have d_err:
    "\<bar>d - (interval + jitter)\<bar> \<le> interval / 9007199254740992 + jitter / 9007199254740992"
    by (simp only: p53 add_divide_distrib)
  have "1 \<le> a + jitter" using a_err assms by linarith
  then have "\<bar>n - (a + jitter)\<bar> \<le> (a + jitter) / 2 ^ 53"
    unfolding n_def by (rule to_double_error)
  then have n_err: "\<bar>n - (a + jitter)\<bar> \<le> a / 9007199254740992 + jitter / 9007199254740992"
    by (simp only: p53 add_divide_distrib)
  from a_err d_err n_err assms
  have "\<bar>n - (now + d)\<bar>
      \<le> now / 2251799813685248 + interval / 2251799813685248 + jitter / 2251799813685248"
    by linarith
  then have "\<bar>n - (now + d)\<bar> \<le> (now + interval + jitter) / 2 ^ 51"
    by (simp only: p51 add_divide_distrib)
  then show ?thesis by (simp only: n_def a_def d_def)
qed

subsection \<open>The engine: scheduling and the failure threshold\<close>

declare decimal.simps [simp del]

lemma engine_log_maps [simp]:
  "states (engine_log i lv m now k e) = states e"
  "timers (engine_log i lv m now k e) = timers e"
  "configs (engine_log i lv m now k e) = configs e"
  "minionPollFunctions (engine_log i lv m now k e) = minionPollFunctions e"
  by (simp_all add: engine_log_def)

lemma persistState_maps [simp]:
  "states (persistState i e) = states e"
  "timers (persistState i e) = timers e"
  "configs (persistState i e) = configs e"
  "minionPollFunctions (persistState i e) = minionPollFunctions e"
  by (simp_all add: persistState_def split: option.splits)

lemma updateState_maps [simp]:
  "timers (updateState i u now e) = timers e"
  "configs (updateState i u now e) = configs e"
  "minionPollFunctions (updateState i u now e) = minionPollFunctions e"
  by (simp_all add: updateState_def Let_def split: option.splits)

lemma clearTimer_maps [simp]:
  "timers (clearTimer i e) i = None"
  "states (clearTimer i e) = states e"
  "configs (clearTimer i e) = configs e"
  "minionPollFunctions (clearTimer i e) = minionPollFunctions e"
  by (simp_all add: clearTimer_def split: option.splits)

lemma updateState_status:
  "states e i = Some cur \<Longrightarrow>
   map_option status (states (updateState i u now e) i)
     = Some (case upd_status u of None \<Rightarrow> status cur | Some v \<Rightarrow> v)"
  by (simp add: updateState_def merge_state_def Let_def split: option.splits)

lemma updateState_errorsCount:
  "states e i = Some cur \<Longrightarrow>
   map_option errorsCount (states (updateState i u now e) i)
     = Some (case upd_errorsCount u of None \<Rightarrow> errorsCount cur | Some v \<Rightarrow> v)"
  by (simp add: updateState_def merge_state_def Let_def split: option.splits)

lemma updateState_nextPollAt:
  "states e i = Some cur \<Longrightarrow>
   map_option nextPollAt (states (updateState i u now e) i)
     = Some (case upd_nextPollAt u of None \<Rightarrow> nextPollAt cur | Some v \<Rightarrow> v)"
  by (simp add: updateState_def merge_state_def Let_def split: option.splits)

lemma schedulePoll_running:
  assumes "configs e i = Some cfg" and "states e i = Some st" and "status st = Running"
  shows "timers (schedulePoll i now rnd e) i
           = Some (to_double (max (pollIntervalMs cfg) 30000 + to_double (rnd * 5000)))"
    and "map_option nextPollAt (states (schedulePoll i now rnd e) i)
           = Some (to_double (to_double (now + max (pollIntervalMs cfg) 30000)
                     + to_double (rnd * 5000)))"
    and "map_option status (states (schedulePoll i now rnd e) i) = Some Running"
    and "map_option errorsCount (states (schedulePoll i now rnd e) i) = Some (errorsCount st)"
    and "configs (schedulePoll i now rnd e) = configs e"
  using assms
  by (simp_all add: schedulePoll_def Let_def updateState_nextPollAt updateState_status
      updateState_errorsCount no_updates_def)

lemma example_roundings:
  "to_double 60000 = 60000" "to_double 2500 = 2500" "to_double 62500 = 62500"
  "to_double 62000 = 62000" "to_double 64500 = 64500"
  by code_simp+

text \<open>
  C5, as the code has it. When the scheduler arms a poll (the minion has a configuration
  and a state, and is running), the jitter is \<open>Math.random() * 5000\<close> rounded to
  binary64, a number from 0 to 5000; the delay of the timer is
  \<open>max pollIntervalMs 30000\<close> plus the jitter, rounded; and \<open>nextPollAt\<close> is
  \<open>(now + interval) + jitter\<close>, rounded after each addition. The delay is within
  \<open>2^-53\<close> of the exact sum, relatively, and \<open>nextPollAt\<close> is the current time plus
  the delay up to rounding: the two differ by at most \<open>(now + interval + jitter) / 2^51\<close>.
\<close>

theorem schedulePoll_delay:
  assumes "configs e i = Some cfg" and "states e i = Some st" and "status st = Running"
    and "0 \<le> rnd" and "rnd < 1" and "0 \<le> now"
    and "interval = max (pollIntervalMs cfg) 30000"
    and "jitter = to_double (rnd * 5000)"
    and "delay = to_double (interval + jitter)"
    and "pollAt = to_double (to_double (now + interval) + jitter)"
  shows "timers (schedulePoll i now rnd e) i = Some delay
       \<and> map_option nextPollAt (states (schedulePoll i now rnd e) i) = Some pollAt
       \<and> 0 \<le> jitter \<and> jitter \<le> 5000
       \<and> \<bar>delay - (interval + jitter)\<bar> \<le> (interval + jitter) / 2 ^ 53
       \<and> \<bar>pollAt - (now + delay)\<bar> \<le> (now + interval + jitter) / 2 ^ 51"
proof -
  have armed: "timers (schedulePoll i now rnd e) i = Some delay"
    and stored: "map_option nextPollAt (states (schedulePoll i now rnd e) i) = Some pollAt"
    using schedulePoll_running(1,2) [OF assms(1-3), of now rnd]
    by (simp_all only: assms(7-10))
  have "0 \<le> rnd * 5000" and "rnd * 5000 \<le> 5000" using assms(4,5) by simp_all
  then have lower: "0 \<le> jitter" and upper: "jitter \<le> 5000"
    unfolding assms(8) by (simp_all add: to_double_nonneg to_double_le_5000)
  have long: "30000 \<le> interval" by (simp add: assms(7))
  with lower have "1 \<le> interval + jitter" by simp
  then have close: "\<bar>delay - (interval + jitter)\<bar> \<le> (interval + jitter) / 2 ^ 53"
    unfolding assms(9) by (rule to_double_error)
  have "\<bar>pollAt - (now + delay)\<bar> \<le> (now + interval + jitter) / 2 ^ 51"
    unfolding assms(9,10) using assms(6) long lower by (rule schedule_rounding)
  with armed stored lower upper close show ?thesis by blast
qed

theorem schedulePoll_delay_witness:
  "timers (schedulePoll ''m1'' 2000 (1 / 2) (example_engine 0)) ''m1'' = Some 62500
   \<and> map_option nextPollAt (states (schedulePoll ''m1'' 2000 (1 / 2) (example_engine 0)) ''m1'')
       = Some 64500
   \<and> \<bar>64500 - (2000 + 62500)\<bar> \<le> ((2000 + 60000 + 2500) / 2 ^ 51 :: real)"
proof -
  have ex: "configs (example_engine 0) ''m1'' = Some example_config"
    "states (example_engine 0) ''m1'' = Some (example_state 0)"
    "status (example_state 0) = Running"
    "(0::real) \<le> 1 / 2" "(1::real) / 2 < 1" "(0::real) \<le> 2000"
    by (simp_all add: example_engine_def example_state_def)
  have vals: "max (pollIntervalMs example_config) 30000 = 60000"
    "to_double (1 / 2 * 5000) = 2500"
    "to_double (60000 + 2500) = 62500"
    "to_double (to_double (2000 + 60000) + 2500) = 64500"
    by (simp_all add: example_config_def example_roundings)
  from schedulePoll_delay [OF ex vals(1) [symmetric] vals(2) [symmetric] vals(3) [symmetric]
      vals(4) [symmetric]]
  show ?thesis by simp
qed

text \<open>
  The claim as stated fails. At \<open>now = 1700000000000\<close>, with the poll interval 60000 and
  the random number \<open>3689799174718069 / 2^64\<close>, the jitter is
  \<open>1 + 2^-13 + 2^-38\<close>; the armed delay is \<open>60001 + 2^-13\<close> and \<open>nextPollAt\<close> is
  \<open>now + 60001 + 2^-12\<close>: not \<open>now\<close> plus the delay, neither exactly nor as the
  rounded sum \<open>now + delay\<close>, which is \<open>now + 60001\<close>. And with the random number
  \<open>1 - 2^-53\<close> the armed delay is the interval plus 5000.
\<close>

theorem nextPollAt_rounding_counterexample:
  "timers (schedulePoll ''m1'' 1700000000000 (3689799174718069 / 18446744073709551616)
             (example_engine 0)) ''m1'' = Some (491528193 / 8192)
   \<and> map_option nextPollAt
         (states (schedulePoll ''m1'' 1700000000000 (3689799174718069 / 18446744073709551616)
                    (example_engine 0)) ''m1'') = Some (1700000060000 + 4097 / 4096)
   \<and> (1700000060000 + 4097 / 4096 :: real) \<noteq> 1700000000000 + 491528193 / 8192
   \<and> to_double (1700000000000 + 491528193 / 8192) \<noteq> 1700000060000 + 4097 / 4096
   \<and> timers (schedulePoll ''m1'' 1700000000000 (1 - 1 / 2 ^ 53) (example_engine 0)) ''m1''
       = Some (60000 + 5000)"
proof -
  have ex: "configs (example_engine 0) ''m1'' = Some example_config"
    "states (example_engine 0) ''m1'' = Some (example_state 0)"
    "status (example_state 0) = Running"
    by (simp_all add: example_engine_def example_state_def)
  have interval: "pollIntervalMs example_config = 60000" by (simp add: example_config_def)
  have delay: "to_double (max 60000 30000
      + to_double (3689799174718069 / 18446744073709551616 * 5000)) = 491528193 / 8192"
    by code_simp
  have pollAt: "to_double (to_double (1700000000000 + max 60000 30000)
      + to_double (3689799174718069 / 18446744073709551616 * 5000))
      = 1700000060000 + 4097 / 4096"
    by code_simp
  have rounded: "to_double (1700000000000 + 491528193 / 8192) \<noteq> 1700000060000 + 4097 / 4096"
    by code_simp
  have longest: "to_double (max 60000 30000 + to_double ((1 - 1 / 2 ^ 53) * 5000)) = 60000 + 5000"
    by code_simp
  have "(1700000060000 + 4097 / 4096 :: real) \<noteq> 1700000000000 + 491528193 / 8192" by simp
  with rounded
    schedulePoll_running(1,2) [OF ex, of 1700000000000 "3689799174718069 / 18446744073709551616"]
    schedulePoll_running(1) [OF ex, of 1700000000000 "1 - 1 / 2 ^ 53"]
  show ?thesis by (simp only: interval delay pollAt longest) simp
qed

lemma pauseMinion_maps:
  "timers (pauseMinion i now lid e) i = None"
  "configs (pauseMinion i now lid e) = configs e"
  "minionPollFunctions (pauseMinion i now lid e) = minionPollFunctions e"
  "states e i = Some cur \<Longrightarrow>
     map_option status (states (pauseMinion i now lid e) i) = Some Paused"
  "states e i = Some cur \<Longrightarrow>
     map_option errorsCount (states (pauseMinion i now lid e) i) = Some (errorsCount cur)"
  by (simp_all add: pauseMinion_def updateState_status updateState_errorsCount no_updates_def)

lemma reschedule_running:
  assumes "configs e i = Some cfg" and "states e i = Some st" and "status st = Running"
  shows "timers (reschedule i now rnd e) i = Some (to_double (max (pollIntervalMs cfg) 30000 + to_double (rnd * 5000)))"
    and "map_option status (states (reschedule i now rnd e) i) = Some Running"
    and "map_option errorsCount (states (reschedule i now rnd e) i) = Some (errorsCount st)"
  using assms schedulePoll_running [OF assms, of now rnd]
  by (simp_all add: reschedule_def)

lemma executePoll_begin_not_running:
  "states e i = Some st \<Longrightarrow> status st \<noteq> Running \<Longrightarrow> executePoll_begin i now lid e = None"
  by (simp add: executePoll_begin_def split: option.splits)

lemma failed_update:
  assumes "states e i = Some cur"
  shows "\<exists>cur'. states (engine_log i lv msg now k (updateState i
            (no_updates\<lparr>upd_lastError := Some (Some m),
               upd_errorsCount := Some n, upd_lastPollAt := Some now\<rparr>) now e)) i = Some cur'
          \<and> errorsCount cur' = n \<and> status cur' = status cur"
  using assms by (simp add: updateState_def merge_state_def no_updates_def Let_def split: option.splits)

lemma schedulePoll_frame [simp]:
  "configs (schedulePoll i now rnd e) = configs e"
  "minionPollFunctions (schedulePoll i now rnd e) = minionPollFunctions e"
  by (simp_all add: schedulePoll_def Let_def split: option.splits)

lemma reschedule_frame [simp]:
  "configs (reschedule i now rnd e) = configs e"
  "minionPollFunctions (reschedule i now rnd e) = minionPollFunctions e"
  by (simp_all add: reschedule_def split: option.splits)

lemma updateState_fields:
  "map_option errorsCount (states (updateState i u now e) i)
     = map_option (\<lambda>cur. case upd_errorsCount u of None \<Rightarrow> errorsCount cur | Some v \<Rightarrow> v)
         (states e i)"
  "map_option status (states (updateState i u now e) i)
     = map_option (\<lambda>cur. case upd_status u of None \<Rightarrow> status cur | Some v \<Rightarrow> v)
         (states e i)"
  by (simp_all add: updateState_def merge_state_def Let_def split: option.splits)

lemma schedulePoll_errorsCount:
  "map_option errorsCount (states (schedulePoll i now rnd e) i) = map_option errorsCount (states e i)"
  by (simp add: schedulePoll_def Let_def updateState_fields no_updates_def
      del: map_option_eq_Some split: option.splits)

lemma reschedule_errorsCount:
  "map_option errorsCount (states (reschedule i now rnd e) i) = map_option errorsCount (states e i)"
  by (simp add: reschedule_def schedulePoll_errorsCount del: map_option_eq_Some
      split: option.splits)

lemma schedulePoll_status:
  "map_option status (states (schedulePoll i now rnd e) i) = map_option status (states e i)"
  by (simp add: schedulePoll_def Let_def updateState_fields no_updates_def
      del: map_option_eq_Some split: option.splits)

lemma reschedule_status:
  "map_option status (states (reschedule i now rnd e) i) = map_option status (states e i)"
  by (simp add: reschedule_def schedulePoll_status del: map_option_eq_Some
      split: option.splits)

lemma failed_poll_end:
  assumes "states e i = Some cur"
    and "e' = executePoll_end i now rnd lid state (Threw err) e"
  shows "map_option errorsCount (states e' i) = Some (errorsCount state + 1)
       \<and> configs e' = configs e \<and> minionPollFunctions e' = minionPollFunctions e
       \<and> (10 \<le> errorsCount state + 1 \<longrightarrow>
            map_option status (states e' i) = Some Paused \<and> timers e' i = None)
       \<and> (errorsCount state + 1 < 10 \<longrightarrow>
            map_option status (states e' i) = Some (status cur) \<and>
            (status cur = Running \<and> configs e i = Some cfg \<longrightarrow>
               timers e' i = Some (to_double (max (pollIntervalMs cfg) 30000 + to_double (rnd * 5000)))))"
proof -
  define e2 where "e2 = engine_log i LevelError (''Poll failed: '' @ err_message err) now (lid 1)
     (updateState i (no_updates\<lparr>upd_lastError := Some (Some (err_message err)),
        upd_errorsCount := Some (errorsCount state + 1), upd_lastPollAt := Some now\<rparr>) now e)"
  obtain cur' where cur': "states e2 i = Some cur'" "errorsCount cur' = errorsCount state + 1"
    "status cur' = status cur"
    unfolding e2_def using failed_update [OF assms(1)] by blast
  have frame: "configs e2 = configs e" "minionPollFunctions e2 = minionPollFunctions e"
    by (simp_all add: e2_def)
  have unfolded: "e' =
    (case states e2 i of
       Some currentState \<Rightarrow>
         if errorsCount currentState \<ge> 10
         then pauseMinion i now (\<lambda>k. lid (k + 3))
                (engine_log i LevelError ''Too many errors, pausing minion'' now (lid 2) e2)
         else reschedule i now rnd e2
     | None \<Rightarrow> reschedule i now rnd e2)"
    unfolding assms(2) executePoll_end_def e2_def Let_def by simp
  show ?thesis
  proof (cases "10 \<le> errorsCount state + 1")
    case True
    define e3 where "e3 = engine_log i LevelError ''Too many errors, pausing minion'' now (lid 2) e2"
    have e3: "states e3 i = Some cur'" by (simp add: e3_def cur')
    from True cur' have e': "e' = pauseMinion i now (\<lambda>k. lid (k + 3)) e3"
      by (simp add: unfolded e3_def)
    have "map_option status (states e' i) = Some Paused"
      unfolding e' using e3 by (rule pauseMinion_maps(4))
    moreover have "map_option errorsCount (states e' i) = Some (errorsCount state + 1)"
      unfolding e' using pauseMinion_maps(5) [OF e3] cur'(2) by simp
    moreover have "configs e' = configs e" "minionPollFunctions e' = minionPollFunctions e"
      by (simp_all add: e' pauseMinion_maps e3_def frame)
    ultimately show ?thesis using True by (simp add: e' pauseMinion_maps(1))
  next
    case False
    with cur' have e': "e' = reschedule i now rnd e2"
      by (simp add: unfolded)
    have count: "map_option errorsCount (states e' i) = Some (errorsCount state + 1)"
      by (simp add: e' reschedule_errorsCount cur')
    have st: "map_option status (states e' i) = Some (status cur)"
      by (simp add: e' reschedule_status cur')
    have "timers e' i = Some (to_double (max (pollIntervalMs cfg) 30000 + to_double (rnd * 5000)))"
      if "status cur = Running" and "configs e i = Some cfg"
      unfolding e' using that cur' frame by (simp add: reschedule_running(1))
    with False count st show ?thesis by (simp add: e' frame)
  qed
qed

lemma startMinion_running:
  assumes "configs e i = Some cfg" and "minionPollFunctions e (config_type cfg)"
    and "states e i = Some st"
  shows "fst (startMinion i now rnd lid e)"
    and "map_option status (states (snd (startMinion i now rnd lid e)) i) = Some Running"
    and "timers (snd (startMinion i now rnd lid e)) i
           = Some (to_double (max (pollIntervalMs cfg) 30000 + to_double (rnd * 5000)))"
proof -
  define e2 where "e2 = engine_log i LevelInfo
      (''Minion '' @ quoted (config_name cfg) @ '' started'') now (lid 0)
      (updateState i (no_updates\<lparr>upd_status := Some Running, upd_startedAt := Some (Some now),
         upd_lastError := Some None\<rparr>) now (clearTimer i e))"
  have eq: "startMinion i now rnd lid e = (True, schedulePoll i now rnd e2)"
    unfolding startMinion_def e2_def Let_def using assms(1,2) by simp
  have "map_option status (states e2 i) = Some Running"
    unfolding e2_def using assms(3) by (simp add: updateState_status no_updates_def)
  then obtain st2 where st2: "states e2 i = Some st2" "status st2 = Running" by auto
  have cfg2: "configs e2 i = Some cfg" by (simp add: e2_def assms(1))
  show "fst (startMinion i now rnd lid e)" by (simp add: eq)
  show "map_option status (states (snd (startMinion i now rnd lid e)) i) = Some Running"
    using schedulePoll_running(3) [OF cfg2 st2] by (simp add: eq)
  show "timers (snd (startMinion i now rnd lid e)) i
           = Some (to_double (max (pollIntervalMs cfg) 30000 + to_double (rnd * 5000)))"
    using schedulePoll_running(1) [OF cfg2 st2] by (simp add: eq)
qed

lemma resumeMinion_paused:
  assumes "configs e i = Some cfg" and "states e i = Some st" and "status st = Paused"
  shows "timers (resumeMinion i now rnd lid e) i
           = Some (to_double (max (pollIntervalMs cfg) 30000 + to_double (rnd * 5000)))"
proof -
  define e2 where "e2 = engine_log i LevelInfo ''Minion resumed'' now (lid 0)
      (updateState i (no_updates\<lparr>upd_status := Some Running\<rparr>) now e)"
  have eq: "resumeMinion i now rnd lid e = schedulePoll i now rnd e2"
    unfolding resumeMinion_def e2_def using assms(2,3) by simp
  have "map_option status (states e2 i) = Some Running"
    unfolding e2_def using assms(2) by (simp add: updateState_status no_updates_def)
  then obtain st2 where st2: "states e2 i = Some st2" "status st2 = Running" by auto
  have cfg2: "configs e2 i = Some cfg" by (simp add: e2_def assms(1))
  show ?thesis using schedulePoll_running(1) [OF cfg2 st2] by (simp add: eq)
qed

text \<open>
  C1, as the code has it. When a failed poll brings the error counter of the snapshot
  to 10 or more, the status becomes \<open>paused\<close>, the timer is cleared and a timer that
  fires later finds nothing to do; \<open>startMinion\<close> or \<open>resumeMinion\<close> arms a poll
  again. A failed poll that leaves the counter below 10 leaves the status as it is, and
  arms the next poll of a running minion.
\<close>

theorem executePoll_failure_threshold:
  assumes "states e i = Some cur" and "configs e i = Some cfg"
    and "minionPollFunctions e (config_type cfg)"
    and "e' = executePoll_end i now rnd lid state (Threw err) e"
  shows "(10 \<le> errorsCount state + 1 \<longrightarrow>
            map_option status (states e' i) = Some Paused \<and> timers e' i = None \<and>
            executePoll_begin i now' lid' e' = None \<and>
            timers (snd (startMinion i now' rnd' lid' e')) i
              = Some (to_double (max (pollIntervalMs cfg) 30000 + to_double (rnd' * 5000))) \<and>
            timers (resumeMinion i now' rnd' lid' e') i
              = Some (to_double (max (pollIntervalMs cfg) 30000 + to_double (rnd' * 5000))))
       \<and> (errorsCount state + 1 < 10 \<longrightarrow>
            map_option status (states e' i) = Some (status cur) \<and>
            (status cur = Running \<longrightarrow>
               timers e' i = Some (to_double (max (pollIntervalMs cfg) 30000 + to_double (rnd * 5000)))))"
proof -
  note ended = failed_poll_end [OF assms(1,4), of cfg]
  have "map_option status (states e' i) = Some Paused \<and> timers e' i = None \<and>
      executePoll_begin i now' lid' e' = None \<and>
      timers (snd (startMinion i now' rnd' lid' e')) i
        = Some (to_double (max (pollIntervalMs cfg) 30000 + to_double (rnd' * 5000))) \<and>
      timers (resumeMinion i now' rnd' lid' e') i
        = Some (to_double (max (pollIntervalMs cfg) 30000 + to_double (rnd' * 5000)))"
    if "10 \<le> errorsCount state + 1"
  proof -
    from ended that have paused: "map_option status (states e' i) = Some Paused"
      and off: "timers e' i = None" by simp_all
    from paused obtain st' where st': "states e' i = Some st'" "status st' = Paused" by auto
    then have "executePoll_begin i now' lid' e' = None"
      by (simp add: executePoll_begin_not_running)
    moreover have kept: "configs e' i = Some cfg" "minionPollFunctions e' (config_type cfg)"
      using ended assms(2,3) by simp_all
    then have "timers (snd (startMinion i now' rnd' lid' e')) i
        = Some (to_double (max (pollIntervalMs cfg) 30000 + to_double (rnd' * 5000)))"
      using st'(1) by (rule startMinion_running(3))
    moreover have "timers (resumeMinion i now' rnd' lid' e') i
        = Some (to_double (max (pollIntervalMs cfg) 30000 + to_double (rnd' * 5000)))"
      using kept(1) st' by (rule resumeMinion_paused)
    ultimately show ?thesis using paused off by simp
  qed
  moreover have "map_option status (states e' i) = Some (status cur) \<and>
      (status cur = Running \<longrightarrow>
         timers e' i = Some (to_double (max (pollIntervalMs cfg) 30000 + to_double (rnd * 5000))))"
    if "errorsCount state + 1 < 10"
    using ended that assms(2) by simp
  ultimately show ?thesis by blast
qed

theorem executePoll_failure_threshold_witness:
  "map_option status (states (executePoll_end ''m1'' 5000 0 example_lid (example_state 9)
       (Threw (OtherError ''timeout'')) (example_engine 9)) ''m1'') = Some Paused
   \<and> timers (executePoll_end ''m1'' 5000 0 example_lid (example_state 9)
       (Threw (OtherError ''timeout'')) (example_engine 9)) ''m1'' = None
   \<and> map_option status (states (executePoll_end ''m1'' 5000 0 example_lid (example_state 3)
       (Threw (OtherError ''timeout'')) (example_engine 3)) ''m1'') = Some Running
   \<and> timers (executePoll_end ''m1'' 5000 0 example_lid (example_state 3)
       (Threw (OtherError ''timeout'')) (example_engine 3)) ''m1'' = Some 60000"
proof -
  have ex: "states (example_engine n) ''m1'' = Some (example_state n)"
    "configs (example_engine n) ''m1'' = Some example_config"
    "minionPollFunctions (example_engine n) (config_type example_config)" for n
    by (simp_all add: example_engine_def)
  have vals: "(10::int) \<le> errorsCount (example_state 9) + 1"
    "errorsCount (example_state 3) + 1 < (10::int)"
    "status (example_state 3) = Running"
    "to_double (max (pollIntervalMs example_config) 30000 + to_double (0 * 5000)) = 60000"
    by (simp_all add: example_state_def example_config_def example_roundings)
  from vals
    executePoll_failure_threshold [where e = "example_engine 9" and i = "''m1''"
      and cfg = example_config and state = "example_state 9" and now = 5000 and rnd = 0
      and lid = example_lid and err = "OtherError ''timeout''", OF ex refl]
    executePoll_failure_threshold [where e = "example_engine 3" and i = "''m1''"
      and cfg = example_config and state = "example_state 3" and now = 5000 and rnd = 0
      and lid = example_lid and err = "OtherError ''timeout''", OF ex refl]
  show ?thesis by simp
qed

text \<open>
  The claim as stated fails: at the tenth failure the status becomes \<open>paused\<close>, not
  \<open>error\<close>.
\<close>

theorem tenth_failure_pauses_counterexample:
  "map_option status
     (states (fst (executePoll ''m1'' 5000 0 example_lid failing_poll
                     (example_engine 9, newRateLimiter GLOBAL_CONFIG))) ''m1'') = Some Paused
   \<and> map_option status
     (states (fst (executePoll ''m1'' 5000 0 example_lid failing_poll
                     (example_engine 9, newRateLimiter GLOBAL_CONFIG))) ''m1'') \<noteq> Some Error"
proof -
  have started: "executePoll_begin ''m1'' 5000 example_lid (example_engine 9)
      = Some ((example_config, example_state 9),
          engine_log ''m1'' LevelDebug
            (''Polling '' @ decimal (length (targetChatIds example_config)) @ '' target(s)...'')
            5000 (example_lid 0) (example_engine 9))"
    by (simp add: executePoll_begin_def example_engine_def example_state_def example_config_def)
  have "states (engine_log ''m1'' LevelDebug
            (''Polling '' @ decimal (length (targetChatIds example_config)) @ '' target(s)...'')
            5000 (example_lid 0) (example_engine 9)) ''m1'' = Some (example_state 9)"
    by (simp add: example_engine_def)
  from failed_poll_end [OF this refl, where now = 5000 and rnd = 0 and lid = example_lid
      and state = "example_state 9" and err = "OtherError ''timeout''"]
  have "map_option status
     (states (fst (executePoll ''m1'' 5000 0 example_lid failing_poll
                     (example_engine 9, newRateLimiter GLOBAL_CONFIG))) ''m1'') = Some Paused"
    by (simp add: executePoll_def started execute_settle_def example_state_def failing_poll_def
        split: prod.splits)
  then show ?thesis by auto
qed

subsection \<open>The engine and the rate limiter: what a poll leaves behind\<close>

lemma release_keeps:
  "floodWaitUntil (snd (release l)) = floodWaitUntil l"
  "currentBackoff (snd (release l)) = currentBackoff l"
  "config (snd (release l)) = config l"
  by (simp_all add: release_def Let_def split: list.splits)

lemma executePoll_begin_running:
  assumes "configs e i = Some cfg" and "states e i = Some state" and "status state = Running"
    and "minionPollFunctions e (config_type cfg)"
  shows "executePoll_begin i now lid e
    = Some ((cfg, state),
        engine_log i LevelDebug
          (''Polling '' @ decimal (length (targetChatIds cfg)) @ '' target(s)...'')
          now (lid 0) e)"
  using assms by (simp add: executePoll_begin_def)

text \<open>
  C2, as the code has it. When the poll function of a running minion fails with the
  rate-limit signal, \<open>execute\<close> sets the flood-wait deadline and raises the backoff of
  the rate limiter and throws the error again; the engine then counts it like any other
  failure: the error counter goes up by one, the next poll is armed while the counter is
  below 10, and at 10 the minion is paused.
\<close>

theorem flood_wait_failure_is_counted:
  assumes "configs e i = Some cfg" and "states e i = Some state" and "status state = Running"
    and "minionPollFunctions e (config_type cfg)"
    and "pollFn cfg state = Threw (FloodWaitError secs m)"
    and "w' = executePoll i now rnd lid pollFn (e, l)"
  shows "floodWaitUntil (snd w') = now + (secs + 5) * 1000
       \<and> currentBackoff (snd w')
           = min (currentBackoff l * backoffMultiplier (config l) + (secs + 5) * 1000)
               (maxBackoffMs (config l))
       \<and> map_option errorsCount (states (fst w') i) = Some (errorsCount state + 1)
       \<and> (errorsCount state + 1 < 10 \<longrightarrow>
            map_option status (states (fst w') i) = Some Running \<and>
            timers (fst w') i = Some (to_double (max (pollIntervalMs cfg) 30000 + to_double (rnd * 5000))))
       \<and> (10 \<le> errorsCount state + 1 \<longrightarrow>
            map_option status (states (fst w') i) = Some Paused \<and> timers (fst w') i = None)"
proof -
  define e1 where "e1 = engine_log i LevelDebug
          (''Polling '' @ decimal (length (targetChatIds cfg)) @ '' target(s)...'')
          now (lid 0) e"
  define l1 where "l1 = snd (release (reportFloodWait secs now l))"
  have w': "w' = (executePoll_end i now rnd lid state (Threw (FloodWaitError secs m)) e1, l1)"
    unfolding assms(6) executePoll_def
    by (simp add: executePoll_begin_running [OF assms(1-4)] assms(5) execute_settle_def
        e1_def l1_def split: prod.splits)
  have lim: "floodWaitUntil l1 = now + (secs + 5) * 1000"
    "currentBackoff l1
       = min (currentBackoff l * backoffMultiplier (config l) + (secs + 5) * 1000)
           (maxBackoffMs (config l))"
    by (simp_all add: l1_def release_keeps reportFloodWait_def Let_def)
  have e1: "states e1 i = Some state" "configs e1 i = Some cfg"
    by (simp_all add: e1_def assms)
  from failed_poll_end [OF e1(1) refl, where cfg = cfg and now = now and rnd = rnd and lid = lid
      and state = state and err = "FloodWaitError secs m"] e1(2) assms(3) lim
  show ?thesis by (simp add: w')
qed

theorem flood_wait_failure_is_counted_witness:
  "floodWaitUntil (snd (executePoll ''m1'' 5000 0 example_lid flood_wait_poll
       (example_engine 0, newRateLimiter GLOBAL_CONFIG))) = 5000 + (30 + 5) * 1000
   \<and> map_option errorsCount (states (fst (executePoll ''m1'' 5000 0 example_lid flood_wait_poll
       (example_engine 0, newRateLimiter GLOBAL_CONFIG))) ''m1'') = Some (0 + 1)
   \<and> timers (fst (executePoll ''m1'' 5000 0 example_lid flood_wait_poll
       (example_engine 0, newRateLimiter GLOBAL_CONFIG))) ''m1'' = Some 60000"
proof -
  have ex: "configs (example_engine 0) ''m1'' = Some example_config"
    "states (example_engine 0) ''m1'' = Some (example_state 0)"
    "status (example_state 0) = Running"
    "minionPollFunctions (example_engine 0) (config_type example_config)"
    "flood_wait_poll example_config (example_state 0)
       = (Threw (FloodWaitError 30 ''FLOOD_WAIT_30'') :: StateUpdates outcome)"
    by (simp_all add: example_engine_def example_state_def flood_wait_poll_def)
  have vals: "errorsCount (example_state 0) + 1 < (10::int)"
    "errorsCount (example_state 0) = 0"
    "to_double (max (pollIntervalMs example_config) 30000 + to_double (0 * 5000)) = 60000"
    by (simp_all add: example_state_def example_config_def createDefaultState_def
        example_roundings)
  from vals flood_wait_failure_is_counted [where pollFn = flood_wait_poll and now = 5000
      and rnd = 0 and lid = example_lid and l = "newRateLimiter GLOBAL_CONFIG", OF ex refl]
  show ?thesis by simp
qed

text \<open>
  The claim as stated fails: a poll that fails with the rate-limit signal increments the
  error counter, and as the tenth failure it pauses the minion.
\<close>

theorem flood_wait_counts_counterexample:
  "map_option errorsCount (states (fst (executePoll ''m1'' 5000 0 example_lid flood_wait_poll
       (example_engine 9, newRateLimiter GLOBAL_CONFIG))) ''m1'') = Some 10
   \<and> map_option status (states (fst (executePoll ''m1'' 5000 0 example_lid flood_wait_poll
       (example_engine 9, newRateLimiter GLOBAL_CONFIG))) ''m1'') = Some Paused"
proof -
  have started: "executePoll_begin ''m1'' 5000 example_lid (example_engine 9)
      = Some ((example_config, example_state 9),
          engine_log ''m1'' LevelDebug
            (''Polling '' @ decimal (length (targetChatIds example_config)) @ '' target(s)...'')
            5000 (example_lid 0) (example_engine 9))"
    by (rule executePoll_begin_running) (simp_all add: example_engine_def example_state_def)
  have "states (engine_log ''m1'' LevelDebug
            (''Polling '' @ decimal (length (targetChatIds example_config)) @ '' target(s)...'')
            5000 (example_lid 0) (example_engine 9)) ''m1'' = Some (example_state 9)"
    by (simp add: example_engine_def)
  from failed_poll_end [OF this refl, where now = 5000 and rnd = 0 and lid = example_lid
      and state = "example_state 9" and err = "FloodWaitError 30 ''FLOOD_WAIT_30''"]
  show ?thesis
    by (simp add: executePoll_def started execute_settle_def example_state_def
        flood_wait_poll_def resetting_poll_def split: prod.splits)
qed

lemma successful_poll_end:
  assumes "states e i = Some cur"
  shows "map_option errorsCount
           (states (executePoll_end i now rnd lid state (Returned stateUpdates) e) i)
         = Some (errorsCount state)"
  using assms
  by (simp add: executePoll_end_def Let_def reschedule_errorsCount updateState_fields
      del: map_option_eq_Some)

text \<open>
  C7. The poll function returns \<open>{ errorsCount: 0 }\<close> for a minion with three errors
  counted: the stored counter is still 3, since the engine writes the counter of the
  snapshot after the returned updates.
\<close>

theorem success_ignores_errorsCount_override:
  "map_option errorsCount (states (fst (executePoll ''m1'' 5000 0 example_lid resetting_poll
       (example_engine 3, newRateLimiter GLOBAL_CONFIG))) ''m1'') = Some 3"
proof -
  have started: "executePoll_begin ''m1'' 5000 example_lid (example_engine 3)
      = Some ((example_config, example_state 3),
          engine_log ''m1'' LevelDebug
            (''Polling '' @ decimal (length (targetChatIds example_config)) @ '' target(s)...'')
            5000 (example_lid 0) (example_engine 3))"
    by (rule executePoll_begin_running) (simp_all add: example_engine_def example_state_def)
  have "states (engine_log ''m1'' LevelDebug
            (''Polling '' @ decimal (length (targetChatIds example_config)) @ '' target(s)...'')
            5000 (example_lid 0) (example_engine 3)) ''m1'' = Some (example_state 3)"
    by (simp add: example_engine_def)
  from successful_poll_end [OF this, where now = 5000 and rnd = 0 and lid = example_lid
      and state = "example_state 3"
      and stateUpdates = "no_updates\<lparr>upd_errorsCount := Some 0\<rparr>"]
  show ?thesis
    by (simp add: executePoll_def started execute_settle_def example_state_def
        flood_wait_poll_def resetting_poll_def split: prod.splits)
qed

subsection \<open>The keyword monitor and its cursor\<close>

lemma check_message_emitted:
  "map alert_ref (emitted (check_message env cfg tc chat acc m))
     = map alert_ref (emitted acc) @ (if is_match env tc m then [(chat, Some (msg_id m))] else [])"
  by (simp add: check_message_def is_match_def alert_ref_def keyword_alert_def Let_def)

lemma check_message_locals:
  "totalScanned (check_message env cfg tc chat acc m) = totalScanned acc"
  "updatedLastMessageIds (check_message env cfg tc chat acc m) = updatedLastMessageIds acc"
  by (simp_all add: check_message_def Let_def)

lemma check_messages_emitted:
  "map alert_ref (emitted (foldl (check_message env cfg tc chat) acc ms))
     = map alert_ref (emitted acc) @ map (\<lambda>m. (chat, Some (msg_id m))) (filter (is_match env tc) ms)"
  by (induction ms arbitrary: acc) (simp_all add: check_message_emitted)

lemma check_messages_locals:
  "totalScanned (foldl (check_message env cfg tc chat) acc ms) = totalScanned acc"
  "updatedLastMessageIds (foldl (check_message env cfg tc chat) acc ms) = updatedLastMessageIds acc"
  by (induction ms arbitrary: acc) (simp_all add: check_message_locals)

lemma check_chat_unfold:
  "check_chat env cfg tc state acc chat =
     (if new_messages env state chat = [] then acc
      else
        foldl (check_message env cfg tc chat)
          (acc\<lparr>totalScanned := totalScanned acc + int (length (new_messages env state chat)),
             updatedLastMessageIds :=
               (updatedLastMessageIds acc)
                 (chat := Some (Max (msg_id ` set (new_messages env state chat))))\<rparr>)
          (new_messages env state chat))"
proof -
  have fold_max: "fold max (map msg_id ms) (msg_id m) = Max (msg_id ` set (m # ms))" for m ms
    using Max.set_eq_fold [of "msg_id m" "map msg_id ms"] by simp
  have body: "(case map msg_id ms of
         [] \<Rightarrow> acc
       | first # others \<Rightarrow>
           let maxId = fold max others first;
               acc1 = acc\<lparr>totalScanned := totalScanned acc + int (length ms),
                        updatedLastMessageIds := (updatedLastMessageIds acc)(chat := Some maxId)\<rparr>
           in foldl (check_message env cfg tc chat) acc1 ms)
      = (if ms = [] then acc
         else foldl (check_message env cfg tc chat)
           (acc\<lparr>totalScanned := totalScanned acc + int (length ms),
              updatedLastMessageIds :=
                (updatedLastMessageIds acc)(chat := Some (Max (msg_id ` set ms)))\<rparr>) ms)" for ms
  proof (cases ms)
    case Nil
    then show ?thesis by simp
  next
    case (Cons m ms')
    have "fold max (map msg_id ms') (msg_id m) = Max (msg_id ` set ms)"
      unfolding Cons by (rule fold_max)
    then show ?thesis unfolding Let_def by (simp add: Cons)
  qed
  show ?thesis
  proof (cases "lastMessageIds state chat")
    case None
    show ?thesis
      unfolding check_chat_def new_messages_def Let_def None option.case
      by (simp add: body [unfolded Let_def])
  next
    case (Some cursor)
    show ?thesis
      unfolding check_chat_def new_messages_def Let_def Some option.case
      by (simp add: body [unfolded Let_def])
  qed
qed

lemma check_chat_emitted:
  "map alert_ref (emitted (check_chat env cfg tc state acc chat))
     = map alert_ref (emitted acc)
       @ map (\<lambda>m. (chat, Some (msg_id m))) (filter (is_match env tc) (new_messages env state chat))"
  by (simp add: check_chat_unfold check_messages_emitted)

lemma check_chat_cursor:
  "updatedLastMessageIds (check_chat env cfg tc state acc chat)
     = (if new_messages env state chat = [] then updatedLastMessageIds acc
        else (updatedLastMessageIds acc)
               (chat := Some (Max (msg_id ` set (new_messages env state chat)))))"
  by (simp add: check_chat_unfold check_messages_locals)

lemma check_chats_emitted:
  "map alert_ref (emitted (foldl (check_chat env cfg tc state) acc chats))
     = map alert_ref (emitted acc)
       @ concat (map (\<lambda>chat. map (\<lambda>m. (chat, Some (msg_id m)))
                              (filter (is_match env tc) (new_messages env state chat))) chats)"
  by (induction chats arbitrary: acc) (simp_all add: check_chat_emitted)

lemma check_chats_cursor:
  "updatedLastMessageIds (foldl (check_chat env cfg tc state) acc chats) chat
     = (if chat \<in> set chats \<and> new_messages env state chat \<noteq> []
        then Some (Max (msg_id ` set (new_messages env state chat)))
        else updatedLastMessageIds acc chat)"
  by (induction chats arbitrary: acc) (auto simp: check_chat_cursor)

text \<open>
  C4, as the code has it. A poll of the keyword monitor emits an alert for exactly the
  matching messages among the new messages of each target, in order. With no cursor for
  a target the new messages are all the fetched messages, so the first poll reports the
  matches that were already there; with a cursor above 0 they are the fetched messages
  with an id above the cursor. The poll returns, for a target with new messages, the
  largest of their ids as the cursor.
\<close>

theorem keyword_monitor_alerts_on_first_poll:
  assumes "r = pollKeywordMonitor env cfg tc state"
  shows "map alert_ref (emitted (fst r))
           = concat (map (\<lambda>chat. map (\<lambda>m. (chat, Some (msg_id m)))
                                  (filter (is_match env tc) (new_messages env state chat)))
                       (targetChatIds cfg))
       \<and> (lastMessageIds state chat = None \<longrightarrow>
            new_messages env state chat = fetchChatMessages env chat 50 None)
       \<and> (\<forall>cursor. lastMessageIds state chat = Some cursor \<and> 0 < cursor \<longrightarrow>
            (\<forall>m \<in> set (new_messages env state chat). cursor < msg_id m))
       \<and> (\<exists>ids. upd_lastMessageIds (snd r) = Some ids \<and>
            ids chat = (if chat \<in> set (targetChatIds cfg) \<and> new_messages env state chat \<noteq> []
                        then Some (Max (msg_id ` set (new_messages env state chat)))
                        else lastMessageIds state chat))"
  unfolding assms
  by (simp add: pollKeywordMonitor_def Let_def check_chats_emitted check_chats_cursor
      no_updates_def new_messages_def)

lemma lower1: "ascii_lower ''Big SCAM here'' = ''big scam here''"
  by code_simp

lemma lower2: "ascii_lower ''scam'' = ''scam''"
  by code_simp

lemma example_is_match: "is_match example_env example_tc example_message"
  by (simp add: is_match_def example_env_def example_tc_def example_message_def matchesKeywords_def
      lower1 lower2)

theorem keyword_monitor_alerts_on_first_poll_witness:
  "lastMessageIds (createDefaultState ''m1'') ''chat1'' = None
   \<and> map alert_ref (emitted (fst (pollKeywordMonitor example_env example_config example_tc
         (createDefaultState ''m1'')))) = [(''chat1'', Some 7)]
   \<and> new_messages example_env (createDefaultState ''m1'') ''chat1''
       = fetchChatMessages example_env ''chat1'' 50 None"
proof -
  have empty: "lastMessageIds (createDefaultState ''m1'') ''chat1'' = None"
    by (simp add: createDefaultState_def)
  have fetched: "fetchChatMessages example_env ''chat1'' 50 None = [example_message]"
    by (simp add: example_env_def)
  from keyword_monitor_alerts_on_first_poll [OF refl, of example_env example_config example_tc
      "createDefaultState ''m1''" "''chat1''"] empty
  have "map alert_ref (emitted (fst (pollKeywordMonitor example_env example_config example_tc
         (createDefaultState ''m1''))))
      = concat (map (\<lambda>chat. map (\<lambda>m. (chat, Some (msg_id m)))
                     (filter (is_match example_env example_tc)
                        (new_messages example_env (createDefaultState ''m1'') chat)))
                 (targetChatIds example_config))"
    and new: "new_messages example_env (createDefaultState ''m1'') ''chat1''
       = fetchChatMessages example_env ''chat1'' 50 None"
    by simp_all
  then have "map alert_ref (emitted (fst (pollKeywordMonitor example_env example_config example_tc
         (createDefaultState ''m1'')))) = [(''chat1'', Some 7)]"
    by (simp add: example_config_def fetched example_is_match) (simp add: example_message_def)
  with empty new show ?thesis by simp
qed

text \<open>
  The claim as stated fails: on the first poll, with no cursor, the message that was
  already in the chat and matches the keyword is reported.
\<close>

theorem first_poll_alerts_counterexample:
  "lastMessageIds (createDefaultState ''m1'') ''chat1'' = None
   \<and> map alert_messageId (emitted (fst (pollKeywordMonitor example_env example_config example_tc
         (createDefaultState ''m1'')))) = [Some 7]"
  by (simp add: pollKeywordMonitor_def check_chat_def check_message_def example_env_def
     example_config_def example_tc_def createDefaultState_def example_message_def
     matchesKeywords_def matchesRegexPatterns_def lower1 lower2 keyword_alert_def Let_def
     List.map_filter_def)

subsection \<open>The alert service: marking an alert read twice\<close>

text \<open>
  C8. Two unread alerts, \<open>a1\<close> and \<open>a2\<close>, and an unread count of 2. \<open>markRead\<close> of
  \<open>a1\<close> gives the count 1. A second \<open>markRead\<close> of \<open>a1\<close> leaves the stored flags as
  they are, but lowers the count to 0 and tells the listeners so, while \<open>a2\<close> is still
  unread.
\<close>

theorem markRead_twice_lowers_count_twice:
  "unreadCount (fst (markRead ''a1'' two_unread)) = 1
   \<and> unreadCount (fst (markRead ''a1'' (markRead ''a1'' two_unread))) = 0
   \<and> countNotified (fst (markRead ''a1'' (markRead ''a1'' two_unread))) = [1, 2, 1, 0]
   \<and> map alert_read (ALERTS (snd (markRead ''a1'' two_unread))) = [True, False]
   \<and> map alert_read (ALERTS (snd (markRead ''a1'' (markRead ''a1'' two_unread)))) = [True, False]
   \<and> markRead ''a1'' (markRead ''a1'' two_unread) \<noteq> markRead ''a1'' two_unread"
proof -
  have once: "unreadCount (fst (markRead ''a1'' two_unread)) = 1"
    by (simp add: markRead_def two_unread_def notifyCountListeners_def Let_def)
  have twice: "unreadCount (fst (markRead ''a1'' (markRead ''a1'' two_unread))) = 0"
    by (simp add: markRead_def two_unread_def notifyCountListeners_def Let_def)
  have told: "countNotified (fst (markRead ''a1'' (markRead ''a1'' two_unread))) = [1, 2, 1, 0]"
    by (simp add: markRead_def two_unread_def notifyCountListeners_def Let_def)
  have flags1: "map alert_read (ALERTS (snd (markRead ''a1'' two_unread))) = [True, False]"
    by (simp add: markRead_def two_unread_def Let_def markAlertRead_def getAlert_def
        store_get_def saveAlert_def store_put_def emptyStorage_def example_alert_def)
  have flags2:
    "map alert_read (ALERTS (snd (markRead ''a1'' (markRead ''a1'' two_unread)))) = [True, False]"
    by (simp add: markRead_def two_unread_def Let_def markAlertRead_def getAlert_def
        store_get_def saveAlert_def store_put_def emptyStorage_def example_alert_def)
  have "markRead ''a1'' (markRead ''a1'' two_unread) \<noteq> markRead ''a1'' two_unread"
  proof
    assume "markRead ''a1'' (markRead ''a1'' two_unread) = markRead ''a1'' two_unread"
    then have "unreadCount (fst (markRead ''a1'' (markRead ''a1'' two_unread)))
        = unreadCount (fst (markRead ''a1'' two_unread))" by simp
    with once twice show False by simp
  qed
  with once twice told flags1 flags2 show ?thesis by simp
qed

subsection \<open>Deleting a minion: what stays in the log store\<close>

lemma foldl_store_delete:
  "foldl (\<lambda>store entry. store_delete key (key entry) store) xs es
     = filter (\<lambda>y. key y \<notin> key ` set es) xs"
  by (induction es arbitrary: xs) (auto simp: store_delete_def intro: filter_cong)

lemma length_filter_insort:
  "length (filter P (insort_key f x xs)) = length (filter P (x # xs))"
  by (induction xs) auto

lemma distinct_store_put:
  assumes "distinct (map key xs)"
  shows "distinct (map key (store_put key x xs))"
proof -
  let ?ys = "filter (\<lambda>y. key y \<noteq> key x) xs"
  have "distinct (map key ?ys)" using assms by (rule distinct_map_filter)
  then have ys: "distinct ?ys" "inj_on key (set ?ys)" by (simp_all add: distinct_map)
  have "x \<notin> set ?ys" by auto
  with ys(1) have "distinct (insort_key key x ?ys)" by (simp add: distinct_insort)
  moreover have "inj_on key (insert x (set ?ys))"
    using ys(2) by (auto simp: inj_on_def)
  ultimately show ?thesis
    by (simp add: store_put_def distinct_map set_insort_key)
qed

lemma clearLogsByMinion_LOGS:
  "LOGS (clearLogsByMinion m db)
     = filter (\<lambda>y. log_id y \<notin> log_id ` set (getLogsByMinion m 10000 db)) (LOGS db)"
  by (simp add: clearLogsByMinion_def Let_def foldl_store_delete)

lemma clearLogsByMinion_leaves:
  assumes "distinct (map log_id (LOGS db))"
    and "10000 < length (filter (\<lambda>e. log_minionId e = m) (LOGS db))"
  shows "filter (\<lambda>e. log_minionId e = m) (LOGS (clearLogsByMinion m db)) \<noteq> []"
proof -
  define F where "F = filter (\<lambda>e. log_minionId e = m) (LOGS db)"
  define S where "S = sort_key (\<lambda>e. - log_timestamp e) F"
  have taken: "getLogsByMinion m 10000 db = take 10000 S"
    by (simp add: getLogsByMinion_def doIndexQuery_def Let_def S_def F_def)
  have len: "10000 < length S" using assms(2) by (simp add: S_def F_def)
  have "distinct (map log_id F)" unfolding F_def using assms(1) by (rule distinct_map_filter)
  then have "distinct F" and inj: "inj_on log_id (set F)" by (simp_all add: distinct_map)
  then have "distinct (map log_id S)" by (simp add: S_def distinct_map)
  then have "distinct (map log_id (take 10000 S) @ map log_id (drop 10000 S))"
    by (simp flip: map_append)
  then have apart: "log_id ` set (take 10000 S) \<inter> log_id ` set (drop 10000 S) = {}"
    by simp
  define x where "x = S ! 10000"
  have "S ! 10000 # drop (Suc 10000) S = drop 10000 S"
    using len by (rule Cons_nth_drop_Suc)
  then have "x \<in> set (drop 10000 S)"
    unfolding x_def by (metis list.set_intros(1))
  with apart have fresh: "log_id x \<notin> log_id ` set (take 10000 S)" by blast
  have "x \<in> set S" using len by (simp add: x_def)
  then have "x \<in> set F" by (simp add: S_def)
  then have "x \<in> set (LOGS db)" and "log_minionId x = m" by (simp_all add: F_def)
  with fresh have "x \<in> set (filter (\<lambda>e. log_minionId e = m) (LOGS (clearLogsByMinion m db)))"
    by (simp add: clearLogsByMinion_LOGS taken)
  then show ?thesis by (auto simp del: set_filter)
qed

lemma getLogsByMinion_nonempty:
  assumes "filter (\<lambda>e. log_minionId e = m) (LOGS db) \<noteq> []" and "0 < limit"
  shows "getLogsByMinion m limit db \<noteq> []"
proof -
  have "set (sort_key (\<lambda>e. - log_timestamp e) (filter (\<lambda>e. log_minionId e = m) (LOGS db)))
      \<noteq> {}"
    using assms(1) by (simp only: set_sort set_empty) simp
  then have "sort_key (\<lambda>e. - log_timestamp e) (filter (\<lambda>e. log_minionId e = m) (LOGS db)) \<noteq> []"
    by (simp only: set_empty not_False_eq_True)
  with assms(2) show ?thesis
    by (simp add: getLogsByMinion_def doIndexQuery_def Let_def)
qed

lemma deleteAllMinionData_LOGS:
  "LOGS (deleteAllMinionData m db)
     = filter (\<lambda>y. log_id y \<notin> log_id ` set (getLogsByMinion m 10000 db)) (LOGS db)"
  by (simp add: deleteAllMinionData_def clearLogsByMinion_LOGS getLogsByMinion_def
      clearAlertsByMinion_def deleteState_def deleteConfig_def Let_def)


lemma deleteAllMinionData_leaves:
  assumes "distinct (map log_id (LOGS db))"
    and "10000 < length (filter (\<lambda>e. log_minionId e = m) (LOGS db))"
  shows "filter (\<lambda>e. log_minionId e = m) (LOGS (deleteAllMinionData m db)) \<noteq> []"
  using clearLogsByMinion_leaves [OF assms]
  by (simp add: deleteAllMinionData_LOGS clearLogsByMinion_LOGS)

lemma stopMinion_LOGS:
  "LOGS (storage (stopMinion i now lid e))
     = store_put log_id
         \<lparr>log_id = lid 0, log_minionId = i, log_level = LevelInfo,
          log_message = ''Minion stopped'', log_timestamp = now, log_data = None\<rparr>
         (LOGS (storage e))"
  by (simp add: stopMinion_def engine_log_def saveLog_def persistState_def saveState_def
      updateState_def clearTimer_def Let_def split: option.splits)

lemma deleteMinion_storage:
  "storage (deleteMinion i now lid e) = deleteAllMinionData i (storage (stopMinion i now lid e))"
  by (simp add: deleteMinion_def Let_def)

lemma old_logs_distinct: "distinct (map log_id (map old_log [0..<n]))"
proof -
  have "inj_on (\<lambda>k. log_id (old_log k)) (set [0..<n])"
  proof (rule inj_onI)
    fix k j
    assume "log_id (old_log k) = log_id (old_log j)"
    then have "length (replicate k CHR ''y'') = length (replicate j CHR ''y'')"
      by (simp add: old_log_def)
    then show "k = j" by simp
  qed
  then have "distinct (map (\<lambda>k. log_id (old_log k)) [0..<n])"
    by (simp add: distinct_map)
  then show ?thesis by (simp add: comp_def)
qed

lemma old_logs_of_m1:
  "filter (\<lambda>e. log_minionId e = ''m1'') (map old_log [0..<n]) = map old_log [0..<n]"
  by (simp add: filter_id_conv old_log_def)

lemma old_logs_other_id:
  "filter (\<lambda>y. log_id y \<noteq> ''log-'') (map old_log [0..<n]) = map old_log [0..<n]"
  by (simp add: filter_id_conv old_log_def)

text \<open>
  C9. The minion \<open>m1\<close> has 10000 log entries when it is deleted. \<open>stopMinion\<close> adds
  the entry "Minion stopped", \<open>clearLogsByMinion\<close> deletes the 10000 latest entries it
  gets from \<open>getLogsByMinion(minionId, 10000)\<close>, and one entry of the deleted minion
  stays in the log store. The configuration, the state and the alerts are gone.
\<close>

theorem deleteMinion_leaves_a_log:
  "getLogsByMinion ''m1'' 100
     (storage (deleteMinion ''m1'' 5000 example_lid (engine_with_logs 10000))) \<noteq> []
   \<and> configs (deleteMinion ''m1'' 5000 example_lid (engine_with_logs 10000)) ''m1'' = None
   \<and> states (deleteMinion ''m1'' 5000 example_lid (engine_with_logs 10000)) ''m1'' = None
   \<and> getConfig ''m1'' (storage (deleteMinion ''m1'' 5000 example_lid (engine_with_logs 10000)))
       = None
   \<and> getState ''m1'' (storage (deleteMinion ''m1'' 5000 example_lid (engine_with_logs 10000)))
       = None
   \<and> getAlertsByMinion ''m1''
       (storage (deleteMinion ''m1'' 5000 example_lid (engine_with_logs 10000))) = []"
proof -
  define db1 where "db1 = storage (stopMinion ''m1'' 5000 example_lid (engine_with_logs 10000))"
  have logs1: "LOGS db1
      = store_put log_id
         \<lparr>log_id = ''log-'', log_minionId = ''m1'', log_level = LevelInfo,
          log_message = ''Minion stopped'', log_timestamp = 5000, log_data = None\<rparr>
         (map old_log [0..<10000])"
    by (simp add: db1_def stopMinion_LOGS engine_with_logs_def example_lid_def)
  have "distinct (map log_id (LOGS db1))"
    unfolding logs1 using old_logs_distinct by (rule distinct_store_put)
  moreover have "length (filter (\<lambda>e. log_minionId e = ''m1'') (LOGS db1)) = 10001"
    by (simp add: logs1 store_put_def length_filter_insort old_logs_other_id old_logs_of_m1)
  then have "10000 < length (filter (\<lambda>e. log_minionId e = ''m1'') (LOGS db1))" by simp
  ultimately have "filter (\<lambda>e. log_minionId e = ''m1'') (LOGS (deleteAllMinionData ''m1'' db1)) \<noteq> []"
    by (rule deleteAllMinionData_leaves)
  then have left: "getLogsByMinion ''m1'' 100
     (storage (deleteMinion ''m1'' 5000 example_lid (engine_with_logs 10000))) \<noteq> []"
    by (simp add: deleteMinion_storage db1_def getLogsByMinion_nonempty)
  have maps: "configs (deleteMinion ''m1'' 5000 example_lid (engine_with_logs 10000)) ''m1'' = None"
    "states (deleteMinion ''m1'' 5000 example_lid (engine_with_logs 10000)) ''m1'' = None"
    by (simp_all add: deleteMinion_def Let_def)
  have stores: "CONFIGS db1 = [example_config]" "map state_id (STATES db1) = [''m1'']"
    "ALERTS db1 = []"
    by (simp_all add: db1_def stopMinion_def engine_log_def saveLog_def persistState_def
        saveState_def store_put_def updateState_def clearTimer_def merge_state_def no_updates_def
        engine_with_logs_def example_engine_def example_state_def createDefaultState_def Let_def)
  have "STATES (deleteAllMinionData ''m1'' db1) = store_delete state_id ''m1'' (STATES db1)"
    by (simp add: deleteAllMinionData_def clearLogsByMinion_def clearAlertsByMinion_def
        deleteState_def deleteConfig_def Let_def)
  moreover have "store_delete state_id ''m1'' (STATES db1) = []"
  proof -
    have "set (map state_id (STATES db1)) = {''m1''}"
      by (simp only: stores(2)) simp
    then have "\<forall>x \<in> set (STATES db1). state_id x = ''m1''" by auto
    then show ?thesis by (simp add: store_delete_def)
  qed
  ultimately have gone_state:
    "getState ''m1'' (storage (deleteMinion ''m1'' 5000 example_lid (engine_with_logs 10000))) = None"
    by (simp add: deleteMinion_storage db1_def [symmetric] getState_def store_get_def)
  have gone_config:
    "getConfig ''m1'' (storage (deleteMinion ''m1'' 5000 example_lid (engine_with_logs 10000))) = None"
    by (simp add: deleteMinion_storage db1_def [symmetric] getConfig_def store_get_def
        deleteAllMinionData_def clearLogsByMinion_def clearAlertsByMinion_def
        deleteState_def deleteConfig_def Let_def stores store_delete_def example_config_def)
  have gone_alerts: "getAlertsByMinion ''m1''
       (storage (deleteMinion ''m1'' 5000 example_lid (engine_with_logs 10000))) = []"
    by (simp add: deleteMinion_storage db1_def [symmetric] getAlertsByMinion_def doIndexQuery_def
        deleteAllMinionData_def clearLogsByMinion_def clearAlertsByMinion_def
        deleteState_def deleteConfig_def Let_def stores)
  from left maps gone_config gone_state gone_alerts show ?thesis by simp
qed

end
